theory Spec2Isabelle
  imports Complex_Main "HOL-Library.Word"
begin

section \<open>Data model\<close>

text \<open>
  The cooked-mesh cache of the repository: \<open>geometryToPxMesh\<close> and the class
  \<open>PMeshHandle\<close>. JavaScript numbers are modelled as \<open>real\<close>: the comparisons, the
  division and the product of the source are the exact ones, and the rounding of the
  arithmetic on doubles is not part of the model. The elements of a \<open>Float32Array\<close>
  are the reals that its 32-bit values stand for, and a number stored into such an array
  is rounded to the nearest 32-bit value (\<open>fround\<close> below).
  Elements of the unsigned integer arrays are machine words of their width.
\<close>

record Vector3 =
  vec_x :: real
  vec_y :: real
  vec_z :: real

record Box3 =
  box_min :: Vector3
  box_max :: Vector3

text \<open>
  Typed arrays are JavaScript objects shared by reference. The store below keeps the
  \<open>Float32Array\<close>s in one list and the unsigned integer arrays in another, and a
  reference is an address into its list; the references of a geometry are taken to be
  addresses of arrays that exist.

  The position attribute of a geometry: a plain attribute refers to its
  \<open>Float32Array\<close> by address. For an interleaved attribute the model takes the element
  values of the attribute that the library function \<open>deinterleaveAttribute\<close> returns
  (the function is not part of the sources); they are 32-bit values already, which the
  copy into the new \<open>Float32Array\<close> keeps. The field \<open>boundingBox\<close> is the box that
  line 32 obtains: the one stored in the geometry, or the one that
  \<open>computeBoundingBox\<close> stores there when none is.
\<close>

datatype position_attr =
  BufferAttribute nat
| InterleavedBufferAttribute "real list"

datatype index_array =
  Uint8Array "8 word list"
| Uint16Array "16 word list"
| Uint32Array "32 word list"

record geometry =
  uuid :: string
  boundingBox :: Box3
  position :: position_attr
  index :: "nat option"

text \<open>
  Modelled from the spec: \<open>Box3.getSize\<close> of the rendering library is not part of the
  sources; the spec gives it as \<open>size = bboxMax - bboxMin\<close> per axis.
\<close>

definition getSize :: "Box3 \<Rightarrow> Vector3" where
  "getSize bbox =
     \<lparr>vec_x = vec_x (box_max bbox) - vec_x (box_min bbox),
      vec_y = vec_y (box_max bbox) - vec_y (box_min bbox),
      vec_z = vec_z (box_max bbox) - vec_z (box_min bbox)\<rparr>"

definition TARGET_EXTENT :: real where
  "TARGET_EXTENT = 1.0"

text \<open>Lines 32 to 35: \<open>Math.max(size.x, size.y, size.z)\<close> of the bounding box's size.\<close>

definition maxExtent :: "geometry \<Rightarrow> real" where
  "maxExtent geometry =
     (let size = getSize (boundingBox geometry)
      in max (max (vec_x size) (vec_y size)) (vec_z size))"

text \<open>Line 37.\<close>

definition bakeScale :: "geometry \<Rightarrow> real" where
  "bakeScale geometry =
     (if maxExtent geometry > TARGET_EXTENT * 5
      then TARGET_EXTENT / maxExtent geometry
      else 1.0)"

section \<open>The JavaScript objects and the native side\<close>

text \<open>
  The cache key of line 42 is the string
  \<open>uuid + "_" + (convex ? "convex" : "triangles") + "_bs" + bakeScale\<close>. The model keeps
  its three components as a triple: the printed number has no underscore, so the
  string is read back from the right without ambiguity and two keys are equal exactly
  when the three components are.
\<close>

type_synonym cache_id = "string \<times> bool \<times> real"

definition cacheId :: "geometry \<Rightarrow> bool \<Rightarrow> cache_id" where
  "cacheId geometry convex = (uuid geometry, convex, bakeScale geometry)"

text \<open>
  The objects \<open>{ id, pmesh, refs, bakeScale }\<close> stored in the cache (line 148) and the
  instances of \<open>PMeshHandle\<close>. Both are JavaScript objects that are shared by
  reference: a handle keeps a reference to its item, and the cache maps a key to the
  same item. The model holds them in two stores indexed by address, and a reference is
  an address. A cooked mesh is a native object, named by a number.
\<close>

record cache_item =
  item_id :: cache_id
  pmesh :: nat
  refs :: int
  item_bakeScale :: real

record PMeshHandle =
  handle_value :: "nat option"
  item :: nat
  released :: bool

text \<open>
  Foreign memory (the heap of the physics library): a block per pointer that
  \<open>_webidl_malloc\<close> has returned and \<open>_webidl_free\<close> has not yet freed. Pointers are
  block names handed out by a counter, so \<open>nextPtr\<close> also counts the allocations made.
\<close>

datatype fblock =
  Uninitialised nat
| HEAPF32 "real list"
| HEAPU16 "16 word list"
| HEAPU32 "32 word list"

datatype cook_outcome = Cooked | Rejected | Throws

datatype console_entry =
  Warn_auto_scaling string real
| Error_failed
| Error_err

record store =
  cache :: "cache_id \<rightharpoonup> nat"
  items :: "cache_item list"
  handles :: "PMeshHandle list"
  float32Arrays :: "real list list"
  indexArrays :: "index_array list"
  heap :: "nat \<rightharpoonup> fblock"
  nextPtr :: nat
  liveDescs :: nat
  cookCalls :: "cook_outcome list"
  nextMesh :: nat
  meshReleases :: "nat list"
  console :: "console_entry list"

text \<open>
  The native cooking routines are not part of the sources: they are parameters of the
  model. A routine reads the cooking parameters, the descriptor and the foreign memory
  the descriptor points into, and either returns a cooked mesh, returns nothing
  (\<open>null\<close>: the geometry is rejected), or throws. The store logs the outcome of
  every invocation (\<open>cookCalls\<close>) and names every cooked mesh afresh (\<open>nextMesh\<close>);
  \<open>meshReleases\<close> logs the calls of \<open>pmesh.release()\<close>.
\<close>

datatype mesh_flag = eCOMPUTE_CONVEX | e16_BIT_INDICES

record PxBoundedData =
  bd_count :: real
  bd_stride :: nat
  bd_data :: nat

record PxConvexMeshDesc =
  convex_points :: PxBoundedData
  convex_flags :: "mesh_flag list"

record PxTriangleMeshDesc =
  tri_points :: PxBoundedData
  tri_triangles :: PxBoundedData
  tri_flags :: "mesh_flag list"

record physx =
  CreateConvexMesh :: "nat \<Rightarrow> PxConvexMeshDesc \<Rightarrow> (nat \<rightharpoonup> fblock) \<Rightarrow> cook_outcome"
  CreateTriangleMesh :: "nat \<Rightarrow> PxTriangleMeshDesc \<Rightarrow> (nat \<rightharpoonup> fblock) \<Rightarrow> cook_outcome"

record world =
  cookingParams :: nat

datatype error = TypeError | NativeException

section \<open>PMeshHandle\<close>

text \<open>The constructor, lines 7 to 12. It returns the address of the new handle.\<close>

definition newPMeshHandle :: "nat \<Rightarrow> store \<Rightarrow> nat \<times> store" where
  "newPMeshHandle a s =
     (let it = items s ! a;
          this = \<lparr>handle_value = Some (pmesh it), item = a, released = False\<rparr>
      in (length (handles s),
          s\<lparr>items := (items s)[a := it\<lparr>refs := refs it + 1\<rparr>],
            handles := handles s @ [this]\<rparr>))"

text \<open>The method \<open>release\<close>, lines 14 to 24, on the handle at address \<open>h\<close>.\<close>

definition release :: "nat \<Rightarrow> store \<Rightarrow> store" where
  "release h s =
     (let this = handles s ! h in
      if released this then s
      else
        let a = item this;
            s1 = s\<lparr>items := (items s)[a := (items s ! a)\<lparr>refs := refs (items s ! a) - 1\<rparr>]\<rparr>;
            s2 = (if refs (items s1 ! a) = 0
                  then s1\<lparr>meshReleases := meshReleases s1 @ [pmesh (items s1 ! a)],
                          cache := (cache s1)(item_id (items s1 ! a) := None)\<rparr>
                  else s1)
        in s2\<lparr>handles := (handles s2)[h := this\<lparr>released := True, handle_value := None\<rparr>]\<rparr>)"

section \<open>Normalising and scaling the buffers\<close>

text \<open>
  Lines 59 to 66: the flat positions array. An interleaved attribute is copied into a
  new \<open>Float32Array\<close>; a plain one is used as it is.
\<close>

definition flatPosition :: "geometry \<Rightarrow> store \<Rightarrow> nat \<times> store" where
  "flatPosition geometry s =
     (case position geometry of
        BufferAttribute a \<Rightarrow> (a, s)
      | InterleavedBufferAttribute xs \<Rightarrow>
          (length (float32Arrays s), s\<lparr>float32Arrays := float32Arrays s @ [xs]\<rparr>))"

text \<open>
  A store into a \<open>Float32Array\<close> converts the number to the nearest value of the IEEE
  binary32 format, a tie going to the even significand (the conversion that
  \<open>Math.fround\<close> makes): the number is a multiple of the unit \<open>2 ^ (e - 23)\<close>, where
  \<open>e\<close> is the exponent of the number and at least \<open>-126\<close>. JavaScript turns a
  magnitude of \<open>2 ^ 128\<close> or more into an infinity, which the model does not have; a
  bake scale other than 1 is below \<open>1 / 5\<close>, so the products of line 75 stay in range.
\<close>

definition round_half_even :: "real \<Rightarrow> int" where
  "round_half_even r =
     (let f = \<lfloor>r\<rfloor>; d = r - of_int f
      in if d < 1 / 2 then f else if 1 / 2 < d then f + 1 else if even f then f else f + 1)"

text \<open>The exponent of \<open>x\<close>, searched downwards from \<open>e\<close> and never below \<open>-126\<close>.\<close>

function float32_exponent_from :: "int \<Rightarrow> real \<Rightarrow> int" where
  "float32_exponent_from e x =
     (if e \<le> - 126 then - 126
      else if 2 powi e \<le> \<bar>x\<bar> then e
      else float32_exponent_from (e - 1) x)"
  by pat_completeness auto
termination
  by (relation "measure (\<lambda>(e, x). nat (e + 126))") auto

declare float32_exponent_from.simps [simp del]

definition fround :: "real \<Rightarrow> real" where
  "fround x =
     (let q = 2 powi (float32_exponent_from 127 x - 23)
      in of_int (round_half_even (x / q)) * q)"

text \<open>
  The loop of line 75, from index \<open>i\<close> on: the product is stored into the
  \<open>Float32Array\<close> \<open>scaledPositions\<close>.
\<close>

function scaleLoop :: "real list \<Rightarrow> real \<Rightarrow> nat \<Rightarrow> real list \<Rightarrow> real list" where
  "scaleLoop positions bs i scaledPositions =
     (if i < length positions
      then scaleLoop positions bs (i + 1) (scaledPositions[i := fround (positions ! i * bs)])
      else scaledPositions)"
  by pat_completeness auto
termination
  by (relation "measure (\<lambda>(positions, bs, i, scaledPositions). length positions - i)") auto

declare scaleLoop.simps [simp del]

text \<open>
  Lines 72 to 76: the positions sent to cooking, as the address of an array. With a bake
  scale of 1 it is the address of \<open>positions\<close> itself; otherwise a new zero-filled array
  of the same length is allocated and filled by the loop.
\<close>

definition scalePositions :: "real \<Rightarrow> nat \<Rightarrow> store \<Rightarrow> nat \<times> store" where
  "scalePositions bs positions s =
     (if bs = 1.0 then (positions, s)
      else
        let src = float32Arrays s ! positions;
            scaledPositions = length (float32Arrays s);
            s1 = s\<lparr>float32Arrays := float32Arrays s @ [replicate (length src) 0]\<rparr>
        in (scaledPositions,
            s1\<lparr>float32Arrays := (float32Arrays s1)
                 [scaledPositions := scaleLoop src bs 0 (float32Arrays s1 ! scaledPositions)]\<rparr>))"

text \<open>The loop of lines 107 to 109: an 8-bit element is stored into a 16-bit array.\<close>

function widenLoop :: "8 word list \<Rightarrow> nat \<Rightarrow> 16 word list \<Rightarrow> 16 word list" where
  "widenLoop src i indices =
     (if i < length src
      then widenLoop src (i + 1) (indices[i := ucast (src ! i)])
      else indices)"
  by pat_completeness auto
termination
  by (relation "measure (\<lambda>(src, i, indices). length src - i)") auto

declare widenLoop.simps [simp del]

text \<open>
  Lines 101 to 110: the index array handed to cooking, as an address. A \<open>Uint8Array\<close> is
  copied into a new \<open>Uint16Array\<close>; any other array is used as it is.
\<close>

definition coerceIndices :: "nat \<Rightarrow> store \<Rightarrow> nat \<times> store" where
  "coerceIndices ia s =
     (case indexArrays s ! ia of
        Uint8Array src \<Rightarrow>
          let indices = length (indexArrays s);
              s1 = s\<lparr>indexArrays := indexArrays s @ [Uint16Array (replicate (length src) 0)]\<rparr>
          in (indices,
              s1\<lparr>indexArrays := (indexArrays s1)
                   [indices := Uint16Array (widenLoop src 0 (replicate (length src) 0))]\<rparr>)
      | Uint16Array xs \<Rightarrow> (ia, s)
      | Uint32Array xs \<Rightarrow> (ia, s))"

definition array_length :: "index_array \<Rightarrow> nat" where
  "array_length a =
     (case a of Uint8Array xs \<Rightarrow> length xs | Uint16Array xs \<Rightarrow> length xs
      | Uint32Array xs \<Rightarrow> length xs)"

definition BYTES_PER_ELEMENT :: "index_array \<Rightarrow> nat" where
  "BYTES_PER_ELEMENT a =
     (case a of Uint8Array xs \<Rightarrow> 1 | Uint16Array xs \<Rightarrow> 2 | Uint32Array xs \<Rightarrow> 4)"

section \<open>The cooking bridge\<close>

definition webidl_malloc :: "nat \<Rightarrow> store \<Rightarrow> nat \<times> store" where
  "webidl_malloc bytes s =
     (nextPtr s,
      s\<lparr>heap := (heap s)(nextPtr s \<mapsto> Uninitialised bytes), nextPtr := nextPtr s + 1\<rparr>)"

definition webidl_free :: "nat \<Rightarrow> store \<Rightarrow> store" where
  "webidl_free ptr s = s\<lparr>heap := (heap s)(ptr := None)\<rparr>"

text \<open>\<open>HEAPF32.set\<close>, \<open>HEAPU16.set\<close> and \<open>HEAPU32.set\<close> at the start of a block.\<close>

definition heap_set :: "nat \<Rightarrow> fblock \<Rightarrow> store \<Rightarrow> store" where
  "heap_set ptr b s = s\<lparr>heap := (heap s)(ptr \<mapsto> b)\<rparr>"

text \<open>
  Lines 85 to 90, the convex branch. An exception of the native routine is not caught
  here: it leaves the function at once.
\<close>

definition cookConvex ::
  "physx \<Rightarrow> world \<Rightarrow> nat \<Rightarrow> nat \<Rightarrow> store \<Rightarrow> (error + nat option) \<times> store" where
  "cookConvex PHYSX wrld n pointsPtr s =
     (let desc = \<lparr>convex_points = \<lparr>bd_count = real n / 3, bd_stride = 12, bd_data = pointsPtr\<rparr>,
                  convex_flags = [eCOMPUTE_CONVEX]\<rparr>;
          s1 = s\<lparr>liveDescs := liveDescs s + 1\<rparr>;
          outcome = CreateConvexMesh PHYSX (cookingParams wrld) desc (heap s1);
          s2 = s1\<lparr>cookCalls := cookCalls s1 @ [outcome]\<rparr>
      in case outcome of
           Throws \<Rightarrow> (Inl NativeException, s2)
         | Rejected \<Rightarrow> (Inr None, s2)
         | Cooked \<Rightarrow> (Inr (Some (nextMesh s2)), s2\<lparr>nextMesh := nextMesh s2 + 1\<rparr>))"

text \<open>
  Lines 114 to 122: the index array is copied into its block of foreign memory, as
  16-bit elements for a \<open>Uint16Array\<close> and as 32-bit elements otherwise. The result
  also gives the stride of a triangle and the flags raised.
\<close>

definition marshalIndices ::
  "index_array \<Rightarrow> nat \<Rightarrow> store \<Rightarrow> store \<times> nat \<times> mesh_flag list" where
  "marshalIndices indices indexPtr s =
     (case indices of
        Uint16Array xs \<Rightarrow> (heap_set indexPtr (HEAPU16 xs) s, 6, [e16_BIT_INDICES])
      | Uint32Array xs \<Rightarrow> (heap_set indexPtr (HEAPU32 xs) s, 12, [])
      | Uint8Array xs \<Rightarrow> (heap_set indexPtr (HEAPU32 (map ucast xs)) s, 12, []))"

text \<open>
  Lines 92 to 140, the triangle branch. Reading \<open>index.array\<close> of an absent index
  throws a \<open>TypeError\<close>. An exception of the native routine is caught and logged, and
  the index block is freed in the \<open>finally\<close> clause.
\<close>

definition cookTriangles ::
  "physx \<Rightarrow> world \<Rightarrow> geometry \<Rightarrow> nat \<Rightarrow> nat \<Rightarrow> store \<Rightarrow> (error + nat option) \<times> store" where
  "cookTriangles PHYSX wrld geometry n pointsPtr s =
     (let s1 = s\<lparr>liveDescs := liveDescs s + 1\<rparr>;
          points = \<lparr>bd_count = real n / 3, bd_stride = 12, bd_data = pointsPtr\<rparr>
      in case index geometry of
           None \<Rightarrow> (Inl TypeError, s1)
         | Some ia \<Rightarrow>
             let (indices, s2) = coerceIndices ia s1;
                 arr = indexArrays s2 ! indices;
                 indexBytes = array_length arr * BYTES_PER_ELEMENT arr;
                 (indexPtr, s3) = webidl_malloc indexBytes s2;
                 (s4, strd, flags) = marshalIndices arr indexPtr s3;
                 desc = \<lparr>tri_points = points,
                         tri_triangles = \<lparr>bd_count = real (array_length arr) / 3,
                                          bd_stride = strd, bd_data = indexPtr\<rparr>,
                         tri_flags = flags\<rparr>;
                 outcome = CreateTriangleMesh PHYSX (cookingParams wrld) desc (heap s4);
                 s5 = s4\<lparr>cookCalls := cookCalls s4 @ [outcome]\<rparr>
             in case outcome of
                  Throws \<Rightarrow>
                    (Inr None,
                     webidl_free indexPtr (s5\<lparr>console := console s5 @ [Error_failed, Error_err]\<rparr>))
                | Rejected \<Rightarrow> (Inr None, webidl_free indexPtr s5)
                | Cooked \<Rightarrow>
                    (Inr (Some (nextMesh s5)),
                     webidl_free indexPtr (s5\<lparr>nextMesh := nextMesh s5 + 1\<rparr>)))"

text \<open>
  Lines 50 to 144: everything between the cache miss and the test of \<open>pmesh\<close>. The
  result is the cooked mesh, or nothing, or the exception that left the function.
\<close>

definition cookMesh ::
  "physx \<Rightarrow> world \<Rightarrow> geometry \<Rightarrow> bool \<Rightarrow> real \<Rightarrow> store \<Rightarrow> (error + nat option) \<times> store" where
  "cookMesh PHYSX wrld geometry convex bs s =
     (let (positions, s1) = flatPosition geometry s;
          (scaledPositions, s2) = scalePositions bs positions s1;
          scaled = float32Arrays s2 ! scaledPositions;
          floatBytes = length scaled * 4;
          (pointsPtr, s3) = webidl_malloc floatBytes s2;
          s4 = heap_set pointsPtr (HEAPF32 scaled) s3;
          n = length (float32Arrays s4 ! positions)
      in case (if convex then cookConvex PHYSX wrld n pointsPtr s4
               else cookTriangles PHYSX wrld geometry n pointsPtr s4) of
           (Inl e, s5) \<Rightarrow> (Inl e, s5)
         | (Inr pm, s5) \<Rightarrow>
             (Inr pm, (webidl_free pointsPtr s5)\<lparr>liveDescs := liveDescs s5 - 1\<rparr>))"

section \<open>The cache\<close>

text \<open>
  The exported function. The result is the address of the new handle, \<open>None\<close> for
  \<open>null\<close>, or the exception thrown; the store is the one the call leaves behind in
  each case.
\<close>

definition geometryToPxMesh ::
  "physx \<Rightarrow> world \<Rightarrow> geometry \<Rightarrow> bool \<Rightarrow> store \<Rightarrow> (error + nat option) \<times> store" where
  "geometryToPxMesh PHYSX wrld geometry convex s0 =
     (let bs = bakeScale geometry;
          s = (if bs \<noteq> 1.0
               then s0\<lparr>console := console s0 @ [Warn_auto_scaling (uuid geometry) bs]\<rparr>
               else s0);
          ident = cacheId geometry convex
      in case cache s ident of
           Some a \<Rightarrow> (let (h, s1) = newPMeshHandle a s in (Inr (Some h), s1))
         | None \<Rightarrow>
             (case cookMesh PHYSX wrld geometry convex bs s of
                (Inl e, s1) \<Rightarrow> (Inl e, s1)
              | (Inr None, s1) \<Rightarrow> (Inr None, s1)
              | (Inr (Some pm), s1) \<Rightarrow>
                  let a = length (items s1);
                      s2 = s1\<lparr>items := items s1 @
                                 [\<lparr>item_id = ident, pmesh = pm, refs = 0, item_bakeScale = bs\<rparr>],
                              cache := (cache s1)(ident \<mapsto> a)\<rparr>;
                      (h, s3) = newPMeshHandle a s2
                  in (Inr (Some h), s3)))"

section \<open>Runs of the cache\<close>

text \<open>
  When the module is loaded the cache is a new \<open>Map\<close> and no item and no handle exists.
  From then on the store changes by calls of \<open>geometryToPxMesh\<close>, by calls of
  \<open>release\<close> on a handle that exists, and by the caller, who owns the position and index
  arrays and may create or change them between two calls.
\<close>

definition initial :: "store \<Rightarrow> bool" where
  "initial s = (cache s = Map.empty \<and> items s = [] \<and> handles s = [])"

inductive reaches :: "physx \<Rightarrow> store \<Rightarrow> store \<Rightarrow> bool"
  for PHYSX :: physx and s :: store where
  start: "reaches PHYSX s s"
| acquire: "reaches PHYSX s t \<Longrightarrow>
     reaches PHYSX s (snd (geometryToPxMesh PHYSX wrld geometry convex t))"
| release: "reaches PHYSX s t \<Longrightarrow> h < length (handles t) \<Longrightarrow>
     reaches PHYSX s (release h t)"
| caller: "reaches PHYSX s t \<Longrightarrow>
     reaches PHYSX s (t\<lparr>float32Arrays := fs, indexArrays := js\<rparr>)"

text \<open>The number of handles on the item at address \<open>a\<close> that are not yet released.\<close>

definition live :: "store \<Rightarrow> nat \<Rightarrow> nat" where
  "live s a = length (filter (\<lambda>this. item this = a \<and> \<not> released this) (handles s))"

text \<open>
  The invariant of the runs: every handle refers to an item that exists, and its value
  is \<open>null\<close> once it is released and the cooked mesh of its item before; every address
  in the cache is the address of an item that carries the key it is stored under; and
  the \<open>refs\<close> of an item is the number of its unreleased handles.
\<close>

definition consistent :: "store \<Rightarrow> bool" where
  "consistent s =
     ((\<forall>h < length (handles s).
         item (handles s ! h) < length (items s) \<and>
         handle_value (handles s ! h) =
           (if released (handles s ! h) then None
            else Some (pmesh (items s ! item (handles s ! h)))))
      \<and> (\<forall>k a. cache s k = Some a \<longrightarrow> a < length (items s) \<and> item_id (items s ! a) = k)
      \<and> (\<forall>a < length (items s). refs (items s ! a) = int (live s a)))"

text \<open>
  A destroyed item: it exists, no handle on it is outstanding and no key of the cache
  leads to it.
\<close>

definition destroyed :: "store \<Rightarrow> nat \<Rightarrow> bool" where
  "destroyed s a =
     (a < length (items s) \<and> refs (items s ! a) = 0 \<and> (\<forall>k. cache s k \<noteq> Some a))"

section \<open>Concrete inputs\<close>

text \<open>
  A store with an empty cache and the caller's buffers of one triangle, three native
  sides (one that cooks every mesh, one that rejects every mesh, one that throws) and
  a few geometries. They are the inputs at which the theorems below are instantiated.
\<close>

definition box :: "real \<Rightarrow> real \<Rightarrow> real \<Rightarrow> Box3" where
  "box a b c =
     \<lparr>box_min = \<lparr>vec_x = 0, vec_y = 0, vec_z = 0\<rparr>,
      box_max = \<lparr>vec_x = a, vec_y = b, vec_z = c\<rparr>\<rparr>"

definition store0 :: store where
  "store0 =
     \<lparr>cache = Map.empty, items = [], handles = [],
      float32Arrays = [[0, 0, 0, 1, 0, 0, 0, 1, 0]],
      indexArrays = [Uint8Array [0, 1, 2]],
      heap = Map.empty, nextPtr = 8, liveDescs = 0, cookCalls = [], nextMesh = 0,
      meshReleases = [], console = []\<rparr>"

definition physxAccepts :: physx where
  "physxAccepts =
     \<lparr>CreateConvexMesh = (\<lambda>cp d m. Cooked), CreateTriangleMesh = (\<lambda>cp d m. Cooked)\<rparr>"

definition physxRejects :: physx where
  "physxRejects =
     \<lparr>CreateConvexMesh = (\<lambda>cp d m. Rejected), CreateTriangleMesh = (\<lambda>cp d m. Rejected)\<rparr>"

definition physxThrows :: physx where
  "physxThrows =
     \<lparr>CreateConvexMesh = (\<lambda>cp d m. Throws), CreateTriangleMesh = (\<lambda>cp d m. Throws)\<rparr>"

definition world0 :: world where
  "world0 = \<lparr>cookingParams = 0\<rparr>"

definition tri :: geometry where
  "tri = \<lparr>uuid = ''tri'', boundingBox = box 1 1 0, position = BufferAttribute 0,
          index = Some 0\<rparr>"

definition geom5 :: geometry where
  "geom5 = \<lparr>uuid = ''g5'', boundingBox = box 5 1 2, position = BufferAttribute 0,
            index = None\<rparr>"

definition geom10 :: geometry where
  "geom10 = \<lparr>uuid = ''g10'', boundingBox = box 1 10 2, position = BufferAttribute 0,
             index = None\<rparr>"

text \<open>The store after \<open>tri\<close> has been cooked once in convex mode from \<open>store0\<close>.\<close>

definition store1 :: store where
  "store1 =
     store0\<lparr>cache := [(''tri'', True, 1) \<mapsto> 0],
            items := [\<lparr>item_id = (''tri'', True, 1), pmesh = 0, refs = 1, item_bakeScale = 1\<rparr>],
            handles := [\<lparr>handle_value = Some 0, item = 0, released = False\<rparr>],
            nextPtr := 9, cookCalls := [Cooked], nextMesh := 1\<rparr>"

definition triNoIndex :: geometry where
  "triNoIndex = \<lparr>uuid = ''noindex'', boundingBox = box 1 1 0, position = BufferAttribute 0,
                 index = None\<rparr>"

text \<open>A store whose index arrays are an 8-bit one and a 16-bit one.\<close>

definition storeIdx :: store where
  "storeIdx = store0\<lparr>indexArrays := [Uint8Array [0, 1, 2, 255], Uint16Array [7, 8, 9]]\<rparr>"

text \<open>
  The store after the one handle of \<open>store1\<close> has been released, and the store after
  \<open>tri\<close> has then been cooked again in convex mode.
\<close>

definition store1r :: store where
  "store1r =
     store1\<lparr>cache := Map.empty,
            items := [\<lparr>item_id = (''tri'', True, 1), pmesh = 0, refs = 0, item_bakeScale = 1\<rparr>],
            handles := [\<lparr>handle_value = None, item = 0, released = True\<rparr>],
            meshReleases := [0]\<rparr>"

definition store2 :: store where
  "store2 =
     store1r\<lparr>cache := [(''tri'', True, 1) \<mapsto> 1],
             items := [\<lparr>item_id = (''tri'', True, 1), pmesh = 0, refs = 0, item_bakeScale = 1\<rparr>,
                       \<lparr>item_id = (''tri'', True, 1), pmesh = 1, refs = 1, item_bakeScale = 1\<rparr>],
             handles := [\<lparr>handle_value = None, item = 0, released = True\<rparr>,
                         \<lparr>handle_value = Some 1, item = 1, released = False\<rparr>],
             nextPtr := 10, cookCalls := [Cooked, Cooked], nextMesh := 2\<rparr>"

text \<open>
  The store after \<open>tri\<close> has been cooked once in triangle mode from \<open>store0\<close>, and the
  same geometry (the same \<open>uuid\<close> and bounding box) with its index removed.
\<close>

definition storeT :: store where
  "storeT =
     store0\<lparr>cache := [(''tri'', False, 1) \<mapsto> 0],
            items := [\<lparr>item_id = (''tri'', False, 1), pmesh = 0, refs = 1, item_bakeScale = 1\<rparr>],
            handles := [\<lparr>handle_value = Some 0, item = 0, released = False\<rparr>],
            indexArrays := [Uint8Array [0, 1, 2], Uint16Array [0, 1, 2]],
            nextPtr := 10, cookCalls := [Cooked], nextMesh := 1\<rparr>"

definition triStripped :: geometry where
  "triStripped = \<lparr>uuid = ''tri'', boundingBox = box 1 1 0, position = BufferAttribute 0,
                  index = None\<rparr>"

section \<open>Frame and case lemmas\<close>

lemma flatPosition_frame:
  "flatPosition g s = (a, s') \<Longrightarrow>
     cache s' = cache s \<and> items s' = items s \<and> handles s' = handles s \<and>
     meshReleases s' = meshReleases s \<and> cookCalls s' = cookCalls s \<and> nextPtr s' = nextPtr s \<and> heap s' = heap s
     \<and> indexArrays s' = indexArrays s \<and> nextMesh s' = nextMesh s \<and> liveDescs s' = liveDescs s"
  by (auto simp: flatPosition_def split: position_attr.splits)

lemma scalePositions_frame:
  "scalePositions bs p s = (a, s') \<Longrightarrow>
     cache s' = cache s \<and> items s' = items s \<and> handles s' = handles s \<and>
     meshReleases s' = meshReleases s \<and> cookCalls s' = cookCalls s \<and> nextPtr s' = nextPtr s \<and> heap s' = heap s
     \<and> indexArrays s' = indexArrays s \<and> nextMesh s' = nextMesh s \<and> liveDescs s' = liveDescs s"
  by (auto simp: scalePositions_def Let_def split: if_splits)

lemma coerceIndices_frame:
  "coerceIndices ia s = (a, s') \<Longrightarrow>
     cache s' = cache s \<and> items s' = items s \<and> handles s' = handles s \<and>
     meshReleases s' = meshReleases s \<and> cookCalls s' = cookCalls s \<and> nextPtr s' = nextPtr s \<and> heap s' = heap s
     \<and> float32Arrays s' = float32Arrays s \<and> nextMesh s' = nextMesh s \<and> liveDescs s' = liveDescs s"
  by (auto simp: coerceIndices_def Let_def split: index_array.splits)

lemma cookConvex_calls:
  "cookConvex P w n p s = (r, s') \<Longrightarrow>
     cache s' = cache s \<and> items s' = items s \<and> handles s' = handles s \<and>
     meshReleases s' = meshReleases s \<and>
     (\<exists>outcome. cookCalls s' = cookCalls s @ [outcome] \<and>
        (outcome = Cooked \<longrightarrow> r = Inr (Some (nextMesh s)) \<and> nextMesh s' = nextMesh s + 1) \<and>
        (outcome = Rejected \<longrightarrow> r = Inr None \<and> nextMesh s' = nextMesh s) \<and>
        (outcome = Throws \<longrightarrow> r = Inl NativeException \<and> nextMesh s' = nextMesh s))"
  by (auto simp: cookConvex_def Let_def split: cook_outcome.splits)

lemma cookTriangles_calls:
  "cookTriangles P w g n p s = (r, s') \<Longrightarrow>
     cache s' = cache s \<and> items s' = items s \<and> handles s' = handles s \<and>
     meshReleases s' = meshReleases s \<and>
     (if index g = None then r = Inl TypeError \<and> cookCalls s' = cookCalls s \<and> nextMesh s' = nextMesh s
      else \<exists>outcome. cookCalls s' = cookCalls s @ [outcome] \<and>
        (outcome = Cooked \<longrightarrow> r = Inr (Some (nextMesh s)) \<and> nextMesh s' = nextMesh s + 1) \<and>
        (outcome = Rejected \<longrightarrow> r = Inr None \<and> nextMesh s' = nextMesh s) \<and>
        (outcome = Throws \<longrightarrow> r = Inr None \<and> nextMesh s' = nextMesh s))"
  by (auto simp: cookTriangles_def Let_def webidl_malloc_def webidl_free_def heap_set_def
       marshalIndices_def split: cook_outcome.splits option.splits prod.splits index_array.splits
       dest!: coerceIndices_frame)

lemma cookMesh_calls:
  "cookMesh P w g c bs s = (r, s') \<Longrightarrow>
     cache s' = cache s \<and> items s' = items s \<and> handles s' = handles s \<and>
     meshReleases s' = meshReleases s \<and>
     (if \<not> c \<and> index g = None
      then r = Inl TypeError \<and> cookCalls s' = cookCalls s \<and> nextMesh s' = nextMesh s
      else \<exists>outcome. cookCalls s' = cookCalls s @ [outcome] \<and>
        (outcome = Cooked \<longrightarrow> r = Inr (Some (nextMesh s)) \<and> nextMesh s' = nextMesh s + 1) \<and>
        (outcome = Rejected \<longrightarrow> r = Inr None \<and> nextMesh s' = nextMesh s) \<and>
        (outcome = Throws \<longrightarrow> r = (if c then Inl NativeException else Inr None) \<and>
           nextMesh s' = nextMesh s))"
  apply (simp add: cookMesh_def Let_def webidl_malloc_def webidl_free_def heap_set_def
       split: prod.splits sum.splits if_splits)
   apply (auto dest!: flatPosition_frame scalePositions_frame cookConvex_calls cookTriangles_calls)
  done


lemma geometryToPxMesh_hit:
  assumes "cache s (cacheId g c) = Some a" and "geometryToPxMesh P w g c s = (r, s')"
  shows "r = Inr (Some (length (handles s))) \<and> cache s' = cache s \<and>
         items s' = (items s)[a := (items s ! a)\<lparr>refs := refs (items s ! a) + 1\<rparr>] \<and>
         handles s' = handles s @
           [\<lparr>handle_value = Some (pmesh (items s ! a)), item = a, released = False\<rparr>] \<and>
         cookCalls s' = cookCalls s \<and> meshReleases s' = meshReleases s \<and>
         nextMesh s' = nextMesh s \<and> heap s' = heap s \<and> nextPtr s' = nextPtr s \<and>
         float32Arrays s' = float32Arrays s \<and> indexArrays s' = indexArrays s"
  using assms
  by (auto simp: geometryToPxMesh_def newPMeshHandle_def Let_def split: if_splits)

lemma geometryToPxMesh_miss:
  assumes "cache s (cacheId g c) = None" and "geometryToPxMesh P w g c s = (r, s')"
  shows "meshReleases s' = meshReleases s \<and>
    (if \<not> c \<and> index g = None
     then r = Inl TypeError \<and> cookCalls s' = cookCalls s \<and> cache s' = cache s \<and>
          items s' = items s \<and> handles s' = handles s \<and> nextMesh s' = nextMesh s
     else \<exists>outcome. cookCalls s' = cookCalls s @ [outcome] \<and>
       (outcome = Cooked \<longrightarrow>
          r = Inr (Some (length (handles s))) \<and>
          cache s' = (cache s)(cacheId g c \<mapsto> length (items s)) \<and>
          items s' = items s @
            [\<lparr>item_id = cacheId g c, pmesh = nextMesh s, refs = 1,
              item_bakeScale = bakeScale g\<rparr>] \<and>
          handles s' = handles s @
            [\<lparr>handle_value = Some (nextMesh s), item = length (items s), released = False\<rparr>] \<and>
          nextMesh s' = nextMesh s + 1) \<and>
       (outcome \<noteq> Cooked \<longrightarrow>
          r = (if outcome = Throws \<and> c then Inl NativeException else Inr None) \<and>
          cache s' = cache s \<and> items s' = items s \<and> handles s' = handles s \<and>
          nextMesh s' = nextMesh s))"
proof -
  define s0 where "s0 = (if bakeScale g \<noteq> 1
      then s\<lparr>console := console s @ [Warn_auto_scaling (uuid g) (bakeScale g)]\<rparr> else s)"
  have s0: "cache s0 = cache s" "items s0 = items s" "handles s0 = handles s"
    "cookCalls s0 = cookCalls s" "nextMesh s0 = nextMesh s" "meshReleases s0 = meshReleases s"
    by (simp_all add: s0_def)
  obtain r1 s1 where cm: "cookMesh P w g c (bakeScale g) s0 = (r1, s1)"
    by (cases "cookMesh P w g c (bakeScale g) s0")
  note fr = cookMesh_calls [OF cm]
  have run: "geometryToPxMesh P w g c s =
     (case (r1, s1) of
        (Inl e, s1) \<Rightarrow> (Inl e, s1)
      | (Inr None, s1) \<Rightarrow> (Inr None, s1)
      | (Inr (Some pm), s1) \<Rightarrow>
          let a = length (items s1);
              s2 = s1\<lparr>items := items s1 @
                         [\<lparr>item_id = cacheId g c, pmesh = pm, refs = 0,
                           item_bakeScale = bakeScale g\<rparr>],
                      cache := (cache s1)(cacheId g c \<mapsto> a)\<rparr>;
              (h, s3) = newPMeshHandle a s2
          in (Inr (Some h), s3))"
    using assms(1) cm s0(1) unfolding geometryToPxMesh_def s0_def Let_def by simp
  show ?thesis
  proof (cases "\<not> c \<and> index g = None")
    case True
    with fr have "r1 = Inl TypeError" by simp
    with run assms(2) have "r = Inl TypeError" "s' = s1" by simp_all
    with True fr s0 show ?thesis by simp
  next
    case False
    with fr obtain outcome where oc: "cookCalls s1 = cookCalls s0 @ [outcome]"
      "outcome = Cooked \<longrightarrow> r1 = Inr (Some (nextMesh s0)) \<and> nextMesh s1 = nextMesh s0 + 1"
      "outcome = Rejected \<longrightarrow> r1 = Inr None \<and> nextMesh s1 = nextMesh s0"
      "outcome = Throws \<longrightarrow> r1 = (if c then Inl NativeException else Inr None) \<and>
           nextMesh s1 = nextMesh s0"
      by auto
    show ?thesis
    proof (cases outcome)
      case Cooked
      with oc have r1: "r1 = Inr (Some (nextMesh s0))" "nextMesh s1 = nextMesh s0 + 1" by simp_all
      from run assms(2) r1 fr s0 oc(1) Cooked False show ?thesis
        by (auto simp: newPMeshHandle_def Let_def)
    next
      case Rejected
      with oc have r1: "r1 = Inr None" "nextMesh s1 = nextMesh s0" by simp_all
      from run assms(2) r1 fr s0 oc(1) Rejected False show ?thesis
        by (auto simp: Let_def)
    next
      case Throws
      with oc have r1: "r1 = (if c then Inl NativeException else Inr None)"
        "nextMesh s1 = nextMesh s0" by simp_all
      from run assms(2) r1 fr s0 oc(1) Throws False show ?thesis
        by (auto simp: Let_def split: if_splits)
    qed
  qed
qed

subsection \<open>The concrete inputs evaluated\<close>

lemma bakeScale_tri: "bakeScale tri = 1"
  by (simp add: bakeScale_def maxExtent_def getSize_def tri_def box_def TARGET_EXTENT_def)

lemma tri_fields:
  "uuid tri = ''tri''" "position tri = BufferAttribute 0" "index tri = Some 0"
  by (simp_all add: tri_def)

lemma cacheId_tri: "cacheId tri c = (''tri'', c, 1)"
  by (simp add: cacheId_def bakeScale_tri tri_fields)

lemma first_convex:
  "geometryToPxMesh physxAccepts world0 tri True store0 = (Inr (Some 0), store1)"
  by (simp add: geometryToPxMesh_def cacheId_tri bakeScale_tri cookMesh_def flatPosition_def
        scalePositions_def webidl_malloc_def heap_set_def webidl_free_def cookConvex_def
        newPMeshHandle_def physxAccepts_def Let_def store0_def store1_def tri_fields)

lemma rejected_convex:
  "geometryToPxMesh physxRejects world0 tri True store0 =
     (Inr None, store0\<lparr>nextPtr := 9, cookCalls := [Rejected]\<rparr>)"
  by (simp add: geometryToPxMesh_def cacheId_tri bakeScale_tri cookMesh_def flatPosition_def
        scalePositions_def webidl_malloc_def heap_set_def webidl_free_def cookConvex_def
        physxRejects_def Let_def store0_def tri_fields)


subsection \<open>The loops and the caller's buffers\<close>


lemma fround_one: "fround 1 = 1"
proof -
  have "float32_exponent_from 127 1 = 0"
    by (simp add: float32_exponent_from.simps power_int_minus)
  then show ?thesis by (simp add: fround_def round_half_even_def Let_def power_int_minus)
qed




lemma widenLoop_from:
  "length indices = length src \<Longrightarrow> i \<le> length src \<Longrightarrow>
   widenLoop src i indices = take i indices @ map ucast (drop i src)"
proof (induction src i indices rule: widenLoop.induct)
  case (1 src i indices)
  show ?case
  proof (cases "i < length src")
    case True
    have "widenLoop src i indices = widenLoop src (i + 1) (indices[i := ucast (src ! i)])"
      using True by (subst widenLoop.simps) simp
    also have "\<dots> = take (i + 1) (indices[i := ucast (src ! i)]) @ map ucast (drop (i + 1) src)"
      using True "1.prems" by (intro "1.IH") simp_all
    also have "\<dots> = take i indices @ map ucast (drop i src)"
      using True "1.prems"
      by (simp add: take_Suc_conv_app_nth Cons_nth_drop_Suc [symmetric])
    finally show ?thesis .
  next
    case False
    with "1.prems" show ?thesis by (subst widenLoop.simps) simp
  qed
qed

lemma widenLoop_map:
  "widenLoop src 0 (replicate (length src) 0) = map ucast src"
  by (simp add: widenLoop_from)

lemma unat_widen: "unat (ucast (x :: 8 word) :: 16 word) = unat x"
proof -
  have "unat x < 2 ^ 8" using unsigned_less [of x] by simp
  then have "unat x < 2 ^ 16" by simp
  then show ?thesis by (simp add: unsigned_ucast_eq take_bit_nat_eq_self)
qed




lemma coerceIndices_buffers:
  "coerceIndices ia s = (a, s') \<Longrightarrow>
     float32Arrays s' = float32Arrays s \<and> (\<exists>js. indexArrays s' = indexArrays s @ js)"
  by (auto simp: coerceIndices_def Let_def split: index_array.splits)






subsection \<open>An absent index\<close>

lemma cookMesh_absent_index:
  "index g = None \<Longrightarrow> cookMesh P w g False bs s = (r, s') \<Longrightarrow>
     r = Inl TypeError \<and> nextPtr s' = nextPtr s + 1 \<and>
     (\<exists>xs. heap s' = (heap s)(nextPtr s \<mapsto> HEAPF32 xs))"
  apply (simp add: cookMesh_def Let_def webidl_malloc_def webidl_free_def heap_set_def
       cookTriangles_def split: prod.splits sum.splits if_splits)
  apply (auto dest!: flatPosition_frame scalePositions_frame)
  done

subsection \<open>Foreign memory\<close>

lemma cookConvex_heap:
  "cookConvex P w n p s = (r, s') \<Longrightarrow> heap s' = heap s \<and> nextPtr s' = nextPtr s"
  by (auto simp: cookConvex_def Let_def split: cook_outcome.splits)

lemma cookTriangles_heap:
  "cookTriangles P w g n p s = (Inr pm, s') \<Longrightarrow>
     nextPtr s' = nextPtr s + 1 \<and> heap s' = (heap s)(nextPtr s := None)"
  by (auto simp: cookTriangles_def Let_def webidl_malloc_def webidl_free_def heap_set_def
       marshalIndices_def
       split: cook_outcome.splits option.splits prod.splits index_array.splits
       dest!: coerceIndices_frame)

lemma cookMesh_frees:
  "cookMesh P w g c bs s = (Inr pm, s') \<Longrightarrow>
     nextPtr s \<le> nextPtr s' \<and>
     (\<forall>p. heap s' p = (if nextPtr s \<le> p \<and> p < nextPtr s' then None else heap s p))"
  apply (simp add: cookMesh_def Let_def webidl_malloc_def webidl_free_def heap_set_def
       split: prod.splits sum.splits if_splits)
   apply (auto dest!: flatPosition_frame scalePositions_frame cookConvex_heap cookTriangles_heap)
  done

lemma normal_return_frees_blocks:
  assumes "geometryToPxMesh P w g c s = (Inr h, s')"
  shows "nextPtr s \<le> nextPtr s' \<and>
     (\<forall>p. heap s' p = (if nextPtr s \<le> p \<and> p < nextPtr s' then None else heap s p))"
proof (cases "cache s (cacheId g c)")
  case (Some a)
  from geometryToPxMesh_hit [OF Some assms] show ?thesis by auto
next
  case None
  define s0 where "s0 = (if bakeScale g \<noteq> 1
      then s\<lparr>console := console s @ [Warn_auto_scaling (uuid g) (bakeScale g)]\<rparr> else s)"
  have s0: "cache s0 = cache s" "heap s0 = heap s" "nextPtr s0 = nextPtr s"
    by (simp_all add: s0_def)
  obtain r1 s1 where cm: "cookMesh P w g c (bakeScale g) s0 = (r1, s1)"
    by (cases "cookMesh P w g c (bakeScale g) s0")
  have "\<exists>pm. r1 = Inr pm \<and> heap s' = heap s1 \<and> nextPtr s' = nextPtr s1"
    using assms None cm s0(1) unfolding geometryToPxMesh_def s0_def Let_def
    by (auto simp: newPMeshHandle_def Let_def split: sum.splits option.splits)
  then obtain pm where "r1 = Inr pm" and same: "heap s' = heap s1" "nextPtr s' = nextPtr s1"
    by blast
  with cm have "cookMesh P w g c (bakeScale g) s0 = (Inr pm, s1)" by simp
  from cookMesh_frees [OF this] same s0 show ?thesis by simp
qed

subsection \<open>The invariant of the runs\<close>

lemma length_filter_update:
  "i < length xs \<Longrightarrow>
   length (filter P (xs[i := y])) + (if P (xs ! i) then 1 else 0) =
   length (filter P xs) + (if P y then 1 else 0)"
proof (induction xs arbitrary: i)
  case Nil
  then show ?case by simp
next
  case (Cons x xs)
  show ?case
  proof (cases i)
    case 0
    then show ?thesis by simp
  next
    case (Suc j)
    with Cons.prems have "j < length xs" by simp
    from Cons.IH [OF this] Suc show ?thesis by simp
  qed
qed

lemma live_append:
  "handles s' = handles s @ [this] \<Longrightarrow>
   live s' a = live s a + (if item this = a \<and> \<not> released this then 1 else 0)"
  by (simp add: live_def)

lemma live_released:
  assumes "h < length (handles s)" and "\<not> released (handles s ! h)"
    and "handles s' = (handles s)[h := (handles s ! h)\<lparr>released := True, handle_value := None\<rparr>]"
  shows "live s' a + (if item (handles s ! h) = a then 1 else 0) = live s a"
  using length_filter_update [OF assms(1),
      of "\<lambda>this. item this = a \<and> \<not> released this"
         "(handles s ! h)\<lparr>released := True, handle_value := None\<rparr>"] assms(2,3)
  by (simp add: live_def)

lemma live_zero:
  "live s a = 0 \<longleftrightarrow> (\<forall>h < length (handles s). item (handles s ! h) = a \<longrightarrow> released (handles s ! h))"
  by (simp add: live_def filter_empty_conv all_set_conv_all_nth)

lemma consistent_handle:
  "consistent s \<Longrightarrow> h < length (handles s) \<Longrightarrow>
     item (handles s ! h) < length (items s) \<and>
     handle_value (handles s ! h) =
       (if released (handles s ! h) then None
        else Some (pmesh (items s ! item (handles s ! h))))"
  unfolding consistent_def by blast

lemma consistent_cached:
  "consistent s \<Longrightarrow> cache s k = Some a \<Longrightarrow>
     a < length (items s) \<and> item_id (items s ! a) = k"
  unfolding consistent_def by blast

lemma consistent_refs:
  "consistent s \<Longrightarrow> a < length (items s) \<Longrightarrow> refs (items s ! a) = int (live s a)"
  unfolding consistent_def by blast

lemma consistentI:
  assumes "\<And>h. h < length (handles s) \<Longrightarrow>
     item (handles s ! h) < length (items s) \<and>
     handle_value (handles s ! h) =
       (if released (handles s ! h) then None
        else Some (pmesh (items s ! item (handles s ! h))))"
    and "\<And>k a. cache s k = Some a \<Longrightarrow>
     a < length (items s) \<and> item_id (items s ! a) = k"
    and "\<And>a. a < length (items s) \<Longrightarrow> refs (items s ! a) = int (live s a)"
  shows "consistent s"
  unfolding consistent_def using assms by blast

lemma consistent_same:
  "cache s' = cache s \<Longrightarrow> items s' = items s \<Longrightarrow> handles s' = handles s \<Longrightarrow>
   consistent s' = consistent s"
  by (simp add: consistent_def live_def)

lemma initial_consistent: "initial s \<Longrightarrow> consistent s"
  by (simp add: initial_def consistent_def)

lemma consistent_hit:
  assumes c: "consistent s" and hit: "cache s k = Some a"
    and s': "cache s' = cache s"
      "items s' = (items s)[a := (items s ! a)\<lparr>refs := refs (items s ! a) + 1\<rparr>]"
      "handles s' = handles s @
         [\<lparr>handle_value = Some (pmesh (items s ! a)), item = a, released = False\<rparr>]"
  shows "consistent s'"
proof (rule consistentI)
  from consistent_cached [OF c hit] have a: "a < length (items s)" by simp
  have pm: "pmesh (items s' ! i) = pmesh (items s ! i)"
    and ident: "item_id (items s' ! i) = item_id (items s ! i)"
    and rf: "refs (items s' ! i) = refs (items s ! i) + (if i = a then 1 else 0)"
    if "i < length (items s)" for i
    using that s'(2) by (cases "i = a"; simp)+
  have len: "length (items s') = length (items s)" using s'(2) by simp
  show "item (handles s' ! h) < length (items s') \<and>
         handle_value (handles s' ! h) =
           (if released (handles s' ! h) then None
            else Some (pmesh (items s' ! item (handles s' ! h))))"
    if h: "h < length (handles s')" for h
  proof (cases "h < length (handles s)")
    case True
    from consistent_handle [OF c True] True s'(3) len pm show ?thesis
      by (simp add: nth_append)
  next
    case False
    with h s'(3) have "h = length (handles s)" by simp
    with s'(3) a len pm show ?thesis by simp
  qed
  show "b < length (items s') \<and> item_id (items s' ! b) = k'"
    if "cache s' k' = Some b" for k' b
    using that consistent_cached [OF c, of k' b] s'(1) len ident by simp
  show "refs (items s' ! b) = int (live s' b)" if "b < length (items s')" for b
    using that consistent_refs [OF c, of b] len rf live_append [OF s'(3), of b] by simp
qed

lemma consistent_insert:
  assumes c: "consistent s"
    and s': "cache s' = (cache s)(k \<mapsto> length (items s))"
      "items s' = items s @ [\<lparr>item_id = k, pmesh = m, refs = 1, item_bakeScale = bs\<rparr>]"
      "handles s' = handles s @
         [\<lparr>handle_value = Some m, item = length (items s), released = False\<rparr>]"
  shows "consistent s'"
proof (rule consistentI)
  have none: "live s (length (items s)) = 0"
    unfolding live_zero using consistent_handle [OF c] by fastforce
  show "item (handles s' ! h) < length (items s') \<and>
         handle_value (handles s' ! h) =
           (if released (handles s' ! h) then None
            else Some (pmesh (items s' ! item (handles s' ! h))))"
    if h: "h < length (handles s')" for h
  proof (cases "h < length (handles s)")
    case True
    from consistent_handle [OF c True] True s'(2,3) show ?thesis
      by (simp add: nth_append)
  next
    case False
    with h s'(3) have "h = length (handles s)" by simp
    with s'(2,3) show ?thesis by simp
  qed
  show "b < length (items s') \<and> item_id (items s' ! b) = k'"
    if "cache s' k' = Some b" for k' b
  proof (cases "k' = k")
    case True
    with that s'(1) have "b = length (items s)" by simp
    with True s'(2) show ?thesis by simp
  next
    case False
    with that s'(1) have "cache s k' = Some b" by simp
    from consistent_cached [OF c this] s'(2) show ?thesis by (simp add: nth_append)
  qed
  show "refs (items s' ! b) = int (live s' b)" if "b < length (items s')" for b
  proof (cases "b < length (items s)")
    case True
    from consistent_refs [OF c True] True s'(2) live_append [OF s'(3), of b]
    show ?thesis by (simp add: nth_append)
  next
    case False
    with that s'(2) have "b = length (items s)" by simp
    with s'(2) none live_append [OF s'(3), of b] show ?thesis by simp
  qed
qed


lemma release_effect:
  assumes "\<not> released (handles s ! h)" and "item (handles s ! h) = a"
    and "a < length (items s)"
  shows "items (release h s) = (items s)[a := (items s ! a)\<lparr>refs := refs (items s ! a) - 1\<rparr>]"
    and "handles (release h s) =
           (handles s)[h := (handles s ! h)\<lparr>released := True, handle_value := None\<rparr>]"
    and "cache (release h s) =
           (if refs (items s ! a) = 1 then (cache s)(item_id (items s ! a) := None) else cache s)"
    and "meshReleases (release h s) =
           (if refs (items s ! a) = 1 then meshReleases s @ [pmesh (items s ! a)]
            else meshReleases s)"
    and "cookCalls (release h s) = cookCalls s"
  using assms by (simp_all add: release_def Let_def)

lemma consistent_release:
  assumes c: "consistent s" and h: "h < length (handles s)"
  shows "consistent (release h s)"
proof (cases "released (handles s ! h)")
  case True
  then have "release h s = s" by (simp add: release_def)
  with c show ?thesis by simp
next
  case False
  define a where "a = item (handles s ! h)"
  from consistent_handle [OF c h] have a: "a < length (items s)" by (simp add: a_def)
  note eff = release_effect [OF False a_def [symmetric] a]
  have pm: "pmesh (items (release h s) ! i) = pmesh (items s ! i)"
    and ident: "item_id (items (release h s) ! i) = item_id (items s ! i)"
    and rf: "refs (items (release h s) ! i) = refs (items s ! i) - (if i = a then 1 else 0)"
    if "i < length (items s)" for i
    using that eff(1) by (cases "i = a"; simp)+
  have len: "length (items (release h s)) = length (items s)"
    "length (handles (release h s)) = length (handles s)"
    using eff(1,2) by simp_all
  have sub: "cache s k = Some b" if "cache (release h s) k = Some b" for k b
    using that eff(3) by (simp split: if_splits)
  show ?thesis
  proof (rule consistentI)
    show "item (handles (release h s) ! j) < length (items (release h s)) \<and>
         handle_value (handles (release h s) ! j) =
           (if released (handles (release h s) ! j) then None
            else Some (pmesh (items (release h s) ! item (handles (release h s) ! j))))"
      if "j < length (handles (release h s))" for j
    proof -
      from that len have j: "j < length (handles s)" by simp
      from consistent_handle [OF c j] j h len pm eff(2) show ?thesis
        by (cases "j = h") simp_all
    qed
    show "b < length (items (release h s)) \<and> item_id (items (release h s) ! b) = k"
      if "cache (release h s) k = Some b" for k b
      using consistent_cached [OF c sub [OF that]] len ident by simp
    show "refs (items (release h s) ! b) = int (live (release h s) b)"
      if "b < length (items (release h s))" for b
    proof -
      from that len have b: "b < length (items s)" by simp
      from live_released [OF h False eff(2), of b] consistent_refs [OF c b] rf [OF b]
      show ?thesis by (simp add: a_def split: if_splits)
    qed
  qed
qed

lemma consistent_acquire:
  assumes c: "consistent s" and run: "geometryToPxMesh P w g convex s = (r, s')"
  shows "consistent s'"
proof (cases "cache s (cacheId g convex)")
  case (Some a)
  from geometryToPxMesh_hit [OF Some run] have
    "cache s' = cache s"
    "items s' = (items s)[a := (items s ! a)\<lparr>refs := refs (items s ! a) + 1\<rparr>]"
    "handles s' = handles s @
         [\<lparr>handle_value = Some (pmesh (items s ! a)), item = a, released = False\<rparr>]"
    by simp_all
  from consistent_hit [OF c Some this] show ?thesis .
next
  case None
  note m = geometryToPxMesh_miss [OF None run]
  show ?thesis
  proof (cases "cache s' = cache s \<and> items s' = items s \<and> handles s' = handles s")
    case True
    with c consistent_same [of s' s] show ?thesis by simp
  next
    case False
    with m have
      "cache s' = (cache s)(cacheId g convex \<mapsto> length (items s))"
      "items s' = items s @
            [\<lparr>item_id = cacheId g convex, pmesh = nextMesh s, refs = 1,
              item_bakeScale = bakeScale g\<rparr>]"
      "handles s' = handles s @
            [\<lparr>handle_value = Some (nextMesh s), item = length (items s), released = False\<rparr>]"
      by (auto split: if_splits)
    from consistent_insert [OF c this] show ?thesis .
  qed
qed

lemma consistent_reaches:
  "reaches P s t \<Longrightarrow> consistent s \<Longrightarrow> consistent t"
proof (induction rule: reaches.induct)
  case start
  then show ?case .
next
  case (acquire t wrld geometry convex)
  then show ?case
    using consistent_acquire [of t P wrld geometry convex] by (simp add: prod_eq_iff)
next
  case (release t h)
  then show ?case by (simp add: consistent_release)
next
  case (caller t fs js)
  then show ?case by (simp add: consistent_def live_def)
qed


lemma destroyed_not_cached: "destroyed s a \<Longrightarrow> cache s k \<noteq> Some a"
  unfolding destroyed_def by blast

lemma destroyed_no_handle:
  assumes "consistent s" and "destroyed s a" and "h < length (handles s)"
    and "item (handles s ! h) = a"
  shows "released (handles s ! h)"
proof -
  from assms(2) have a: "a < length (items s)" "refs (items s ! a) = 0"
    by (simp_all add: destroyed_def)
  with consistent_refs [OF assms(1) a(1)] have "live s a = 0" by simp
  with assms(3,4) show ?thesis by (simp add: live_zero)
qed

lemma destroyed_acquire:
  assumes c: "consistent s" and d: "destroyed s a"
    and run: "geometryToPxMesh P w g convex s = (r, s')"
  shows "destroyed s' a \<and> items s' ! a = items s ! a"
proof (cases "cache s (cacheId g convex)")
  case (Some b)
  with destroyed_not_cached [OF d, of "cacheId g convex"] have ne: "b \<noteq> a" by auto
  from geometryToPxMesh_hit [OF Some run] ne d show ?thesis
    by (simp add: destroyed_def)
next
  case None
  note m = geometryToPxMesh_miss [OF None run]
  show ?thesis
  proof (cases "cache s' = cache s \<and> items s' = items s \<and> handles s' = handles s")
    case True
    with d show ?thesis by (simp add: destroyed_def)
  next
    case False
    with m have
      "cache s' = (cache s)(cacheId g convex \<mapsto> length (items s))"
      "items s' = items s @
            [\<lparr>item_id = cacheId g convex, pmesh = nextMesh s, refs = 1,
              item_bakeScale = bakeScale g\<rparr>]"
      by (auto split: if_splits)
    with d show ?thesis by (auto simp: destroyed_def nth_append)
  qed
qed

lemma destroyed_release:
  assumes c: "consistent s" and d: "destroyed s a" and h: "h < length (handles s)"
  shows "destroyed (release h s) a \<and> items (release h s) ! a = items s ! a"
proof (cases "released (handles s ! h)")
  case True
  then have "release h s = s" by (simp add: release_def)
  with d show ?thesis by simp
next
  case False
  define b where "b = item (handles s ! h)"
  from consistent_handle [OF c h] have b: "b < length (items s)" by (simp add: b_def)
  from destroyed_no_handle [OF c d h] False have ne: "b \<noteq> a" by (auto simp: b_def)
  note eff = release_effect [OF False b_def [symmetric] b]
  from eff(1,3) ne d show ?thesis
    by (auto simp: destroyed_def split: if_splits)
qed

lemma destroyed_reaches:
  "reaches P s t \<Longrightarrow> consistent s \<Longrightarrow> destroyed s a \<Longrightarrow>
     destroyed t a \<and> items t ! a = items s ! a"
proof (induction rule: reaches.induct)
  case start
  then show ?case by simp
next
  case (acquire t wrld geometry convex)
  from acquire.prems acquire.IH have d: "destroyed t a" "items t ! a = items s ! a" by simp_all
  from consistent_reaches [OF acquire.hyps acquire.prems(1)] have c: "consistent t" .
  from destroyed_acquire [OF c d(1), of P wrld geometry convex] d(2)
  show ?case by (simp add: prod_eq_iff)
next
  case (release t h)
  from release.prems release.IH have d: "destroyed t a" "items t ! a = items s ! a" by simp_all
  from consistent_reaches [OF release.hyps(1) release.prems(1)] have c: "consistent t" .
  from destroyed_release [OF c d(1) release.hyps(2)] d(2) show ?case by simp
next
  case (caller t fs js)
  then show ?case by (simp add: destroyed_def)
qed

lemma released_reaches:
  "reaches P s t \<Longrightarrow> h < length (handles s) \<Longrightarrow> released (handles s ! h) \<Longrightarrow>
     h < length (handles t) \<and> released (handles t ! h)"
proof (induction rule: reaches.induct)
  case start
  then show ?case by simp
next
  case (acquire t wrld geometry convex)
  then have h: "h < length (handles t)" "released (handles t ! h)" by simp_all
  obtain r t' where run: "geometryToPxMesh P wrld geometry convex t = (r, t')"
    by (cases "geometryToPxMesh P wrld geometry convex t")
  have "\<exists>hs. handles t' = handles t @ hs"
  proof (cases "cache t (cacheId geometry convex)")
    case (Some a)
    from geometryToPxMesh_hit [OF Some run] show ?thesis by simp
  next
    case None
    from geometryToPxMesh_miss [OF None run] show ?thesis by (auto split: if_splits)
  qed
  with h run show ?case by (auto simp: nth_append)
next
  case (release t k)
  then have h: "h < length (handles t)" "released (handles t ! h)" by simp_all
  then show ?case
    by (cases "h = k") (simp_all add: release_def Let_def)
next
  case (caller t fs js)
  then show ?case by simp
qed

subsection \<open>A concrete run\<close>

lemma release_store1: "release 0 store1 = store1r"
  by (simp add: release_def Let_def store1_def store1r_def store0_def)

lemma second_convex:
  "geometryToPxMesh physxAccepts world0 tri True store1r = (Inr (Some 1), store2)"
  by (simp add: geometryToPxMesh_def cacheId_tri bakeScale_tri cookMesh_def flatPosition_def
        scalePositions_def webidl_malloc_def heap_set_def webidl_free_def cookConvex_def
        newPMeshHandle_def physxAccepts_def Let_def store0_def store1_def store1r_def
        store2_def tri_fields)

lemma initial_store0: "initial store0"
  by (simp add: initial_def store0_def)

lemma reaches_store1: "reaches physxAccepts store0 store1"
  using reaches.acquire [OF reaches.start, of physxAccepts store0 world0 tri True]
  by (simp add: first_convex)

lemma reaches_store2: "reaches physxAccepts store1r store2"
  using reaches.acquire [OF reaches.start, of physxAccepts store1r world0 tri True]
  by (simp add: second_convex)

lemma first_triangles:
  "geometryToPxMesh physxAccepts world0 tri False store0 = (Inr (Some 0), storeT)"
  by (simp add: geometryToPxMesh_def cacheId_tri bakeScale_tri cookMesh_def flatPosition_def
        scalePositions_def webidl_malloc_def heap_set_def webidl_free_def cookTriangles_def
        coerceIndices_def marshalIndices_def array_length_def BYTES_PER_ELEMENT_def
        widenLoop.simps newPMeshHandle_def physxAccepts_def Let_def store0_def storeT_def
        tri_fields)

lemma reaches_storeT: "reaches physxAccepts store0 storeT"
  using reaches.acquire [OF reaches.start, of physxAccepts store0 world0 tri False]
  by (simp add: first_triangles)

lemma cacheId_triStripped: "cacheId triStripped convex = (''tri'', convex, 1)"
  by (simp add: cacheId_def bakeScale_def maxExtent_def getSize_def triStripped_def box_def
        TARGET_EXTENT_def)

lemma throwing_convex:
  "geometryToPxMesh physxThrows world0 tri True store0 =
     (Inl NativeException,
      store0\<lparr>heap := [8 \<mapsto> HEAPF32 [0, 0, 0, 1, 0, 0, 0, 1, 0]], nextPtr := 9,
             liveDescs := 1, cookCalls := [Throws]\<rparr>)"
  by (simp add: geometryToPxMesh_def cacheId_tri bakeScale_tri cookMesh_def flatPosition_def
        scalePositions_def webidl_malloc_def heap_set_def cookConvex_def
        physxThrows_def Let_def store0_def tri_fields)

lemma throwing_triangles:
  "geometryToPxMesh physxThrows world0 tri False store0 =
     (Inr None,
      store0\<lparr>indexArrays := [Uint8Array [0, 1, 2], Uint16Array [0, 1, 2]], nextPtr := 10,
             cookCalls := [Throws], console := [Error_failed, Error_err]\<rparr>)"
  by (simp add: geometryToPxMesh_def cacheId_tri bakeScale_tri cookMesh_def flatPosition_def
        scalePositions_def webidl_malloc_def heap_set_def webidl_free_def
        cookTriangles_def coerceIndices_def marshalIndices_def array_length_def
        BYTES_PER_ELEMENT_def widenLoop.simps
        physxThrows_def Let_def store0_def tri_fields)

section \<open>The claims\<close>

subsection \<open>Sharing one entry\<close>

text \<open>
  Claim C1. When \<open>geometryToPxMesh\<close> returns a handle for a geometry and a convex flag,
  a second call with the same geometry and flag, made before any release, returns
  another handle on the same item: both handles are unreleased and refer to the item
  that the cache holds under the key, and the second call invokes no native cooking
  routine (the log of invocations is unchanged). When the key had no entry before the
  first call, the \<open>refs\<close> of the shared item is 1 after the first call and 2 after the
  second.
\<close>

theorem acquire_twice_shares_entry:
  assumes "geometryToPxMesh P w g convex s = (Inr (Some h1), s1)"
  shows "\<exists>h2 s2. geometryToPxMesh P w' g convex s1 = (Inr (Some h2), s2) \<and> h2 \<noteq> h1 \<and>
           item (handles s2 ! h1) = item (handles s1 ! h1) \<and>
           item (handles s2 ! h2) = item (handles s2 ! h1) \<and>
           cache s2 (cacheId g convex) = Some (item (handles s2 ! h1)) \<and>
           \<not> released (handles s2 ! h1) \<and> \<not> released (handles s2 ! h2) \<and>
           cookCalls s2 = cookCalls s1 \<and>
           (cache s (cacheId g convex) = None \<longrightarrow>
              refs (items s1 ! item (handles s1 ! h1)) = 1 \<and>
              refs (items s2 ! item (handles s2 ! h1)) = 2)"
proof -
  obtain r2 s2 where second: "geometryToPxMesh P w' g convex s1 = (r2, s2)"
    by (cases "geometryToPxMesh P w' g convex s1")
  show ?thesis
  proof (cases "cache s (cacheId g convex)")
    case None
    from geometryToPxMesh_miss [OF None assms]
    have first: "h1 = length (handles s)"
      "cache s1 = (cache s)(cacheId g convex \<mapsto> length (items s))"
      "items s1 = items s @
              [\<lparr>item_id = cacheId g convex, pmesh = nextMesh s, refs = 1,
                item_bakeScale = bakeScale g\<rparr>]"
      "handles s1 = handles s @
              [\<lparr>handle_value = Some (nextMesh s), item = length (items s), released = False\<rparr>]"
      by (auto split: if_splits)
    from first have hit: "cache s1 (cacheId g convex) = Some (length (items s))" by simp
    from geometryToPxMesh_hit [OF hit second] first second
    show ?thesis by (simp add: nth_append)
  next
    case (Some a)
    from geometryToPxMesh_hit [OF Some assms]
    have first: "h1 = length (handles s)" "cache s1 = cache s"
      "handles s1 = handles s @
         [\<lparr>handle_value = Some (pmesh (items s ! a)), item = a, released = False\<rparr>]"
      by simp_all
    from first Some have hit: "cache s1 (cacheId g convex) = Some a" by simp
    from geometryToPxMesh_hit [OF hit second] first second Some
    show ?thesis by (simp add: nth_append)
  qed
qed

theorem acquire_twice_shares_entry_witness:
  "cache store0 (cacheId tri True) = None \<and>
   geometryToPxMesh physxAccepts world0 tri True store0 = (Inr (Some 0), store1) \<and>
   (\<exists>h2 s2. geometryToPxMesh physxAccepts world0 tri True store1 = (Inr (Some h2), s2) \<and>
      h2 \<noteq> 0 \<and> item (handles s2 ! h2) = item (handles s2 ! 0) \<and>
      refs (items s2 ! item (handles s2 ! 0)) = 2 \<and> cookCalls s2 = cookCalls store1)"
proof -
  have a: "cache store0 (cacheId tri True) = None"
    by (simp add: store0_def)
  from acquire_twice_shares_entry [OF first_convex, of world0] a first_convex
  show ?thesis by auto
qed

subsection \<open>Releasing a handle\<close>

text \<open>
  Claim C2. \<open>release\<close> is idempotent. On a handle that is not yet released, the call
  lowers the \<open>refs\<close> of the handle's item by exactly one and marks the handle released;
  if the new \<open>refs\<close> is 0 it calls \<open>pmesh.release()\<close> on the item's cooked mesh once and
  deletes the item's key from the cache, and otherwise it leaves the cache and the
  native meshes alone. On a released handle the call changes nothing, so any number of
  further calls leaves the store as the first call left it.
\<close>

theorem release_idempotent:
  assumes "h < length (handles s)" and "item (handles s ! h) = a" and "a < length (items s)"
  shows "(\<not> released (handles s ! h) \<longrightarrow>
            refs (items (release h s) ! a) = refs (items s ! a) - 1 \<and>
            released (handles (release h s) ! h) \<and>
            (if refs (items (release h s) ! a) = 0
             then meshReleases (release h s) = meshReleases s @ [pmesh (items s ! a)] \<and>
                  cache (release h s) = (cache s)(item_id (items s ! a) := None)
             else meshReleases (release h s) = meshReleases s \<and>
                  cache (release h s) = cache s))
       \<and> (released (handles s ! h) \<longrightarrow> release h s = s)
       \<and> (release h ^^ Suc n) s = release h s"
proof -
  have rel: "released (handles (release h s) ! h)"
    using assms(1) by (simp add: release_def Let_def)
  have stay: "\<And>t. released (handles t ! h) \<Longrightarrow> release h t = t"
    by (simp add: release_def)
  have again: "(release h ^^ k) (release h s) = release h s" for k
    by (induction k) (simp_all add: stay rel)
  have "(release h ^^ Suc n) s = release h s"
    using again [of n] by (simp add: funpow_swap1)
  moreover have "\<not> released (handles s ! h) \<longrightarrow>
            refs (items (release h s) ! a) = refs (items s ! a) - 1 \<and>
            (if refs (items (release h s) ! a) = 0
             then meshReleases (release h s) = meshReleases s @ [pmesh (items s ! a)] \<and>
                  cache (release h s) = (cache s)(item_id (items s ! a) := None)
             else meshReleases (release h s) = meshReleases s \<and>
                  cache (release h s) = cache s)"
    using assms by (simp add: release_def Let_def)
  ultimately show ?thesis using rel stay by blast
qed

theorem release_idempotent_witness:
  "0 < length (handles store1) \<and> item (handles store1 ! 0) = 0 \<and> 0 < length (items store1) \<and>
   \<not> released (handles store1 ! 0) \<and>
   refs (items store1 ! 0) = 1 \<and> refs (items (release 0 store1) ! 0) = 0 \<and>
   released (handles (release 0 store1) ! 0) \<and>
   meshReleases (release 0 store1) = [0] \<and>
   cache (release 0 store1) (''tri'', True, 1) = None \<and>
   (release 0 ^^ Suc 2) store1 = release 0 store1"
proof -
  have a: "0 < length (handles store1)" "item (handles store1 ! 0) = 0"
    "0 < length (items store1)" "\<not> released (handles store1 ! 0)"
    "refs (items store1 ! 0) = 1" "pmesh (items store1 ! 0) = 0"
    "item_id (items store1 ! 0) = (''tri'', True, 1)" "meshReleases store1 = []"
    by (simp_all add: store1_def store0_def)
  from release_idempotent [OF a(1) a(2) a(3), of 2] a
  show ?thesis by (simp del: funpow.simps)
qed

subsection \<open>A rejected cook\<close>

text \<open>
  When a call of \<open>geometryToPxMesh\<close> invokes the native cooking routine and the routine
  returns no mesh (the call adds one outcome to the log of invocations, and the outcome
  is \<open>Rejected\<close>), or the routine throws in the triangle branch, where the exception
  is caught, the call returns \<open>null\<close> and leaves the cache, the items and the handles as
  they were: no entry is inserted. The next call with the same geometry and mode
  invokes the native routine again.
\<close>

lemma cook_without_mesh_returns_null:
  assumes "geometryToPxMesh P w g convex s = (r, s1)"
    and "cookCalls s1 = cookCalls s @ [outcome]"
    and "outcome = Rejected \<or> (outcome = Throws \<and> \<not> convex)"
  shows "r = Inr None \<and> cache s1 = cache s \<and> items s1 = items s \<and> handles s1 = handles s \<and>
         (\<exists>again. cookCalls (snd (geometryToPxMesh P w' g convex s1)) = cookCalls s1 @ [again])"
proof (cases "cache s (cacheId g convex)")
  case (Some a)
  from geometryToPxMesh_hit [OF Some assms(1)] assms(2) show ?thesis by simp
next
  case None
  note m = geometryToPxMesh_miss [OF None assms(1)]
  have reach: "\<not> (\<not> convex \<and> index g = None)"
    using m assms(2) by (auto split: if_splits)
  with m assms(2,3) have one: "r = Inr None" "cache s1 = cache s" "items s1 = items s"
    "handles s1 = handles s"
    by auto
  obtain r2 s2 where second: "geometryToPxMesh P w' g convex s1 = (r2, s2)"
    by (cases "geometryToPxMesh P w' g convex s1")
  from one None have "cache s1 (cacheId g convex) = None" by simp
  from geometryToPxMesh_miss [OF this second] reach
  have "\<exists>again. cookCalls s2 = cookCalls s1 @ [again]" by auto
  with one second show ?thesis by simp
qed

lemma cook_without_mesh_returns_null_example:
  "geometryToPxMesh physxRejects world0 tri True store0 =
     (Inr None, store0\<lparr>nextPtr := 9, cookCalls := [Rejected]\<rparr>) \<and>
   cookCalls (store0\<lparr>nextPtr := 9, cookCalls := [Rejected]\<rparr>) = cookCalls store0 @ [Rejected] \<and>
   cache (store0\<lparr>nextPtr := 9, cookCalls := [Rejected]\<rparr>) = cache store0 \<and>
   items (store0\<lparr>nextPtr := 9, cookCalls := [Rejected]\<rparr>) = items store0 \<and>
   (\<exists>outcome. cookCalls (snd (geometryToPxMesh physxRejects world0 tri True
        (store0\<lparr>nextPtr := 9, cookCalls := [Rejected]\<rparr>))) = [Rejected, outcome])"
proof -
  have a: "cookCalls (store0\<lparr>nextPtr := 9, cookCalls := [Rejected]\<rparr>) =
           cookCalls store0 @ [Rejected]"
    by (simp add: store0_def)
  from cook_without_mesh_returns_null [OF rejected_convex a, of world0] rejected_convex a
  show ?thesis by simp
qed

text \<open>
  Claim C4 says that whenever the native routine produces no cooked mesh the call
  returns \<open>null\<close>, inserts no entry, and the next call cooks again. The code does so in
  the cases above. In convex mode the call of the native routine is not guarded: when
  the routine throws, it has produced no mesh, and \<open>geometryToPxMesh\<close> does not return
  \<open>null\<close> but leaves by the exception, where the triangle branch with the same routine
  returns \<open>null\<close>. No entry is inserted in either mode.
\<close>

theorem convex_throw_is_not_null:
  "fst (geometryToPxMesh physxThrows world0 tri True store0) = Inl NativeException \<and>
   fst (geometryToPxMesh physxThrows world0 tri True store0) \<noteq> Inr None \<and>
   cookCalls (snd (geometryToPxMesh physxThrows world0 tri True store0)) =
     cookCalls store0 @ [Throws] \<and>
   cache (snd (geometryToPxMesh physxThrows world0 tri True store0)) = cache store0 \<and>
   fst (geometryToPxMesh physxThrows world0 tri False store0) = Inr None \<and>
   cache (snd (geometryToPxMesh physxThrows world0 tri False store0)) = cache store0"
  using throwing_convex throwing_triangles by (simp add: store0_def)

subsection \<open>The bake scale\<close>

text \<open>
  Claim C6. \<open>maxExtent\<close> is the largest of the three axes of the size of the bounding
  box. The bake scale is \<open>TARGET_EXTENT / maxExtent\<close> when \<open>maxExtent\<close> is greater than
  \<open>TARGET_EXTENT * 5\<close> and 1 otherwise. At \<open>maxExtent = TARGET_EXTENT * 5\<close> it is 1, and
  for every larger \<open>maxExtent\<close> it is \<open>TARGET_EXTENT / maxExtent\<close>, which is less than 1.
  \<open>TARGET_EXTENT\<close> is the constant 1.
\<close>

theorem bakeScale_threshold:
  "TARGET_EXTENT = 1
   \<and> maxExtent g = Max {vec_x (getSize (boundingBox g)), vec_y (getSize (boundingBox g)),
                        vec_z (getSize (boundingBox g))}
   \<and> bakeScale g = (if maxExtent g > TARGET_EXTENT * 5 then TARGET_EXTENT / maxExtent g else 1)
   \<and> (maxExtent g = TARGET_EXTENT * 5 \<longrightarrow> bakeScale g = 1)
   \<and> (maxExtent g > TARGET_EXTENT * 5 \<longrightarrow>
        bakeScale g = TARGET_EXTENT / maxExtent g \<and> bakeScale g < 1)"
  by (simp add: bakeScale_def maxExtent_def TARGET_EXTENT_def Let_def max.commute
        max.left_commute)

theorem bakeScale_threshold_witness:
  "maxExtent geom5 = TARGET_EXTENT * 5 \<and> bakeScale geom5 = 1
   \<and> maxExtent geom10 > TARGET_EXTENT * 5 \<and> bakeScale geom10 = 1 / 10 \<and> bakeScale geom10 < 1"
proof -
  have a: "maxExtent geom5 = TARGET_EXTENT * 5"
    by (simp add: maxExtent_def geom5_def box_def getSize_def TARGET_EXTENT_def)
  have b: "maxExtent geom10 > TARGET_EXTENT * 5"
    by (simp add: maxExtent_def geom10_def box_def getSize_def TARGET_EXTENT_def)
  have c: "maxExtent geom10 = 10"
    by (simp add: maxExtent_def geom10_def box_def getSize_def)
  from a b c bakeScale_threshold [of geom5] bakeScale_threshold [of geom10]
  show ?thesis by (simp add: TARGET_EXTENT_def)
qed

subsection \<open>The scale policy\<close>




subsection \<open>Widening the indices\<close>

text \<open>
  Claim C9. For an 8-bit index array the normalisation allocates a new 16-bit array of
  the same length whose elements have the values of the source, element by element,
  and it is this array that is copied to foreign memory, as 16-bit indices. A 16-bit
  or 32-bit index array is used as it is: the same array object, nothing allocated,
  and its own elements are what is copied to foreign memory. The source array keeps
  its elements in every case.
\<close>

theorem narrow_indices_widened:
  assumes "coerceIndices ia s = (indices, s')"
  shows "(\<forall>src. indexArrays s ! ia = Uint8Array src \<longrightarrow>
            indices = length (indexArrays s) \<and>
            (\<exists>dst. indexArrays s' ! indices = Uint16Array dst \<and> length dst = length src \<and>
                   (\<forall>i < length src. unat (dst ! i) = unat (src ! i)) \<and>
                   marshalIndices (indexArrays s' ! indices) p t =
                     (heap_set p (HEAPU16 dst) t, 6, [e16_BIT_INDICES])))
       \<and> (\<forall>xs. indexArrays s ! ia = Uint16Array xs \<longrightarrow>
            indices = ia \<and> s' = s \<and>
            marshalIndices (indexArrays s' ! indices) p t =
              (heap_set p (HEAPU16 xs) t, 6, [e16_BIT_INDICES]))
       \<and> (\<forall>xs. indexArrays s ! ia = Uint32Array xs \<longrightarrow>
            indices = ia \<and> s' = s \<and>
            marshalIndices (indexArrays s' ! indices) p t = (heap_set p (HEAPU32 xs) t, 12, []))
       \<and> (\<forall>a < length (indexArrays s). indexArrays s' ! a = indexArrays s ! a)"
proof -
  have narrow: "indices = length (indexArrays s) \<and>
            (\<exists>dst. indexArrays s' ! indices = Uint16Array dst \<and> length dst = length src \<and>
                   (\<forall>i < length src. unat (dst ! i) = unat (src ! i)) \<and>
                   marshalIndices (indexArrays s' ! indices) p t =
                     (heap_set p (HEAPU16 dst) t, 6, [e16_BIT_INDICES]))"
    if "indexArrays s ! ia = Uint8Array src" for src
  proof -
    from that assms have "indices = length (indexArrays s)"
      "indexArrays s' ! indices = Uint16Array (map ucast src)"
      by (auto simp: coerceIndices_def Let_def widenLoop_map)
    then show ?thesis by (simp add: marshalIndices_def unat_widen)
  qed
  have wide16: "indices = ia \<and> s' = s \<and>
            marshalIndices (indexArrays s' ! indices) p t =
              (heap_set p (HEAPU16 xs) t, 6, [e16_BIT_INDICES])"
    if "indexArrays s ! ia = Uint16Array xs" for xs
    using that assms by (auto simp: coerceIndices_def marshalIndices_def)
  have wide32: "indices = ia \<and> s' = s \<and>
            marshalIndices (indexArrays s' ! indices) p t = (heap_set p (HEAPU32 xs) t, 12, [])"
    if "indexArrays s ! ia = Uint32Array xs" for xs
    using that assms by (auto simp: coerceIndices_def marshalIndices_def)
  have kept: "\<forall>a < length (indexArrays s). indexArrays s' ! a = indexArrays s ! a"
    using coerceIndices_buffers [OF assms] by (auto simp: nth_append)
  from narrow wide16 wide32 kept show ?thesis by blast
qed

theorem narrow_indices_widened_witness:
  "coerceIndices 0 storeIdx =
     (2, storeIdx\<lparr>indexArrays :=
           [Uint8Array [0, 1, 2, 255], Uint16Array [7, 8, 9], Uint16Array [0, 1, 2, 255]]\<rparr>) \<and>
   indexArrays storeIdx ! 0 = Uint8Array [0, 1, 2, 255] \<and>
   (\<exists>dst. indexArrays (storeIdx\<lparr>indexArrays :=
           [Uint8Array [0, 1, 2, 255], Uint16Array [7, 8, 9], Uint16Array [0, 1, 2, 255]]\<rparr>) ! 2
          = Uint16Array dst \<and> length dst = 4 \<and> unat (dst ! 3) = 255) \<and>
   indexArrays storeIdx ! 1 = Uint16Array [7, 8, 9] \<and>
   coerceIndices 1 storeIdx = (1, storeIdx)"
proof -
  have a: "coerceIndices 0 storeIdx =
     (2, storeIdx\<lparr>indexArrays :=
           [Uint8Array [0, 1, 2, 255], Uint16Array [7, 8, 9], Uint16Array [0, 1, 2, 255]]\<rparr>)"
    by (simp add: coerceIndices_def Let_def storeIdx_def widenLoop.simps)
  have b: "coerceIndices 1 storeIdx = (1, storeIdx)"
    by (simp add: coerceIndices_def storeIdx_def)
  have c: "indexArrays storeIdx ! 0 = Uint8Array [0, 1, 2, 255]"
    "indexArrays storeIdx ! 1 = Uint16Array [7, 8, 9]"
    by (simp_all add: storeIdx_def)
  from narrow_indices_widened [OF a, of 0 storeIdx] narrow_indices_widened [OF b, of 0 storeIdx]
       a b c
  show ?thesis by simp
qed

subsection \<open>An absent index in triangle mode\<close>

text \<open>
  Claim C8, as the code has it. For a geometry without an index, \<open>geometryToPxMesh\<close> in
  triangle mode, when the cache holds no entry under the geometry's triangle-mode key,
  leaves by an exception (the \<open>TypeError\<close> of reading \<open>index.array\<close>), not by
  returning \<open>null\<close>. The native cooking routine has not been invoked, the only
  allocation of foreign memory made is the one block of the positions (none for
  indices), and nothing is inserted into the cache.
\<close>

theorem absent_index_throws_before_cooking:
  assumes "index g = None" and "cache s (cacheId g False) = None"
    and "geometryToPxMesh P w g False s = (r, s')"
  shows "r = Inl TypeError \<and> cookCalls s' = cookCalls s \<and>
         nextPtr s' = nextPtr s + 1 \<and>
         (\<exists>xs. heap s' = (heap s)(nextPtr s \<mapsto> HEAPF32 xs)) \<and>
         cache s' = cache s \<and> items s' = items s \<and> handles s' = handles s"
proof -
  define s0 where "s0 = (if bakeScale g \<noteq> 1
      then s\<lparr>console := console s @ [Warn_auto_scaling (uuid g) (bakeScale g)]\<rparr> else s)"
  have s0: "cache s0 = cache s" "heap s0 = heap s" "nextPtr s0 = nextPtr s"
    by (simp_all add: s0_def)
  obtain r1 s1 where cm: "cookMesh P w g False (bakeScale g) s0 = (r1, s1)"
    by (cases "cookMesh P w g False (bakeScale g) s0")
  note ab = cookMesh_absent_index [OF assms(1) cm]
  then have "r1 = Inl TypeError" by simp
  with assms(2,3) cm s0(1) have "r = r1" "s' = s1"
    unfolding geometryToPxMesh_def s0_def Let_def by simp_all
  with ab s0 geometryToPxMesh_miss [OF assms(2,3)] assms(1) show ?thesis by simp
qed

theorem absent_index_throws_before_cooking_witness:
  "index triNoIndex = None \<and> cache store0 (cacheId triNoIndex False) = None \<and>
   geometryToPxMesh physxAccepts world0 triNoIndex False store0 =
     (Inl TypeError,
      store0\<lparr>heap := [8 \<mapsto> HEAPF32 [0, 0, 0, 1, 0, 0, 0, 1, 0]], nextPtr := 9,
             liveDescs := 1\<rparr>) \<and>
   cookCalls (store0\<lparr>heap := [8 \<mapsto> HEAPF32 [0, 0, 0, 1, 0, 0, 0, 1, 0]], nextPtr := 9,
             liveDescs := 1\<rparr>) = cookCalls store0"
proof -
  have a: "index triNoIndex = None" "cache store0 (cacheId triNoIndex False) = None"
    by (simp_all add: triNoIndex_def store0_def)
  have bs: "bakeScale triNoIndex = 1"
    by (simp add: bakeScale_def maxExtent_def getSize_def triNoIndex_def box_def
          TARGET_EXTENT_def)
  have f: "uuid triNoIndex = ''noindex''" "position triNoIndex = BufferAttribute 0"
    by (simp_all add: triNoIndex_def)
  have b: "geometryToPxMesh physxAccepts world0 triNoIndex False store0 =
     (Inl TypeError,
      store0\<lparr>heap := [8 \<mapsto> HEAPF32 [0, 0, 0, 1, 0, 0, 0, 1, 0]], nextPtr := 9,
             liveDescs := 1\<rparr>)"
    by (simp add: geometryToPxMesh_def cacheId_def bs f a(1) cookMesh_def flatPosition_def
          scalePositions_def webidl_malloc_def heap_set_def cookTriangles_def Let_def
          store0_def)
  from absent_index_throws_before_cooking [OF a b] a b
  show ?thesis by simp
qed

text \<open>
  Without the condition on the cache the claim does not hold. The key is made of the
  \<open>uuid\<close>, the mode and the bake scale, and the cache is looked up before the index is
  read: once \<open>tri\<close> has been cooked in triangle mode, a call for the geometry of the same
  \<open>uuid\<close> whose index is absent finds the entry and returns a handle on it. Nothing
  is thrown and the index is never looked at.
\<close>

theorem absent_index_cache_hit_counterexample:
  "initial store0 \<and> reaches physxAccepts store0 storeT \<and> index triStripped = None \<and>
   geometryToPxMesh physxAccepts world0 triStripped False storeT =
     (Inr (Some 1),
      storeT\<lparr>items := [\<lparr>item_id = (''tri'', False, 1), pmesh = 0, refs = 2,
                          item_bakeScale = 1\<rparr>],
             handles := [\<lparr>handle_value = Some 0, item = 0, released = False\<rparr>,
                         \<lparr>handle_value = Some 0, item = 0, released = False\<rparr>]\<rparr>) \<and>
   fst (geometryToPxMesh physxAccepts world0 triStripped False storeT) \<noteq> Inl TypeError"
proof -
  have bs: "bakeScale triStripped = 1"
    by (simp add: bakeScale_def maxExtent_def getSize_def triStripped_def box_def
          TARGET_EXTENT_def)
  have run: "geometryToPxMesh physxAccepts world0 triStripped False storeT =
     (Inr (Some 1),
      storeT\<lparr>items := [\<lparr>item_id = (''tri'', False, 1), pmesh = 0, refs = 2,
                          item_bakeScale = 1\<rparr>],
             handles := [\<lparr>handle_value = Some 0, item = 0, released = False\<rparr>,
                         \<lparr>handle_value = Some 0, item = 0, released = False\<rparr>]\<rparr>)"
    by (simp add: geometryToPxMesh_def cacheId_triStripped bs newPMeshHandle_def Let_def
          storeT_def store0_def)
  have "index triStripped = None" by (simp add: triStripped_def)
  with run initial_store0 reaches_storeT show ?thesis by simp
qed

subsection \<open>Foreign memory on the failure paths\<close>

text \<open>
  Claim C5 says that every block of foreign memory allocated during one cook is freed
  before the call returns, on every path and in both modes, also when the native
  routine throws. The code does so whenever the call returns normally
  (\<open>normal_return_frees_blocks\<close>) and, in triangle mode, when the native routine throws:
  the exception is caught and both blocks are freed. In convex mode the call of the
  native routine is not guarded: when it throws, the exception leaves
  \<open>geometryToPxMesh\<close> and the block of the positions, allocated at pointer 8 here, is
  still allocated afterwards.
\<close>

theorem convex_throw_leaks_points_block:
  "geometryToPxMesh physxThrows world0 tri True store0 =
     (Inl NativeException,
      store0\<lparr>heap := [8 \<mapsto> HEAPF32 [0, 0, 0, 1, 0, 0, 0, 1, 0]], nextPtr := 9,
             liveDescs := 1, cookCalls := [Throws]\<rparr>) \<and>
   heap store0 8 = None \<and>
   geometryToPxMesh physxThrows world0 tri False store0 =
     (Inr None,
      store0\<lparr>indexArrays := [Uint8Array [0, 1, 2], Uint16Array [0, 1, 2]], nextPtr := 10,
             cookCalls := [Throws], console := [Error_failed, Error_err]\<rparr>)"
  by (simp add: geometryToPxMesh_def cacheId_tri bakeScale_tri cookMesh_def flatPosition_def
        scalePositions_def webidl_malloc_def heap_set_def webidl_free_def cookConvex_def
        cookTriangles_def coerceIndices_def marshalIndices_def array_length_def
        BYTES_PER_ELEMENT_def widenLoop.simps
        physxThrows_def Let_def store0_def tri_fields)

subsection \<open>Destroyed entries\<close>

text \<open>
  Claim C3. In a run of the cache, let the entry of a geometry and mode have exactly one
  outstanding handle. Releasing that handle destroys the entry: its \<open>refs\<close> is 0, its
  cooked mesh is released and no key of the cache leads to it. A following call of
  \<open>geometryToPxMesh\<close> for the same geometry and mode misses the cache: it invokes the
  native cooking routine (whenever the inputs let it reach the routine), and if it
  returns a handle, that handle is on a new item, created by this fresh cook with
  \<open>refs\<close> 1 and stored under the key, not on the destroyed one. The destroyed state is
  terminal: in every later state of the run the old item is unchanged, no key leads to
  it and every handle on it is released.
\<close>

theorem destroyed_entry_is_terminal:
  assumes "initial s0" and "reaches P s0 s"
    and "h < length (handles s)" and "\<not> released (handles s ! h)"
    and "item (handles s ! h) = a" and "cache s (cacheId g convex) = Some a"
    and "refs (items s ! a) = 1"
    and "geometryToPxMesh P w g convex (release h s) = (r, s2)"
    and "reaches P (release h s) t"
  shows "destroyed (release h s) a
       \<and> cache (release h s) (cacheId g convex) = None
       \<and> meshReleases (release h s) = meshReleases s @ [pmesh (items s ! a)]
       \<and> (\<forall>h2. r = Inr (Some h2) \<longrightarrow>
             cookCalls s2 = cookCalls (release h s) @ [Cooked] \<and>
             item (handles s2 ! h2) = length (items s) \<and>
             item (handles s2 ! h2) \<noteq> a \<and>
             cache s2 (cacheId g convex) = Some (length (items s)) \<and>
             refs (items s2 ! length (items s)) = 1)
       \<and> (convex \<or> index g \<noteq> None \<longrightarrow>
             (\<exists>outcome. cookCalls s2 = cookCalls (release h s) @ [outcome]))
       \<and> destroyed t a \<and> items t ! a = items (release h s) ! a
       \<and> (\<forall>h' < length (handles t). item (handles t ! h') = a \<longrightarrow> released (handles t ! h'))"
proof -
  let ?s1 = "release h s"
  let ?k = "cacheId g convex"
  from consistent_reaches [OF assms(2) initial_consistent [OF assms(1)]]
  have c: "consistent s" .
  have c1: "consistent ?s1" using consistent_release [OF c assms(3)] .
  from consistent_cached [OF c assms(6)]
  have a: "a < length (items s)" "item_id (items s ! a) = ?k" by simp_all
  note eff = release_effect [OF assms(4,5) a(1)]
  have uncached: "cache ?s1 k \<noteq> Some a" for k
  proof
    assume k: "cache ?s1 k = Some a"
    with eff(3) assms(7) a(2) have "k \<noteq> ?k" "cache s k = Some a" by (auto split: if_splits)
    with consistent_cached [OF c this(2)] a(2) show False by simp
  qed
  have d1: "destroyed ?s1 a"
    unfolding destroyed_def using uncached eff(1) assms(7) a(1) by simp
  have miss: "cache ?s1 ?k = None"
    using eff(3) assms(7) a(2) by simp
  have rel: "meshReleases ?s1 = meshReleases s @ [pmesh (items s ! a)]"
    using eff(4) assms(7) by simp
  have len: "length (items ?s1) = length (items s)" "length (handles ?s1) = length (handles s)"
    using eff(1,2) by simp_all
  note m = geometryToPxMesh_miss [OF miss assms(8)]
  have fresh: "\<forall>h2. r = Inr (Some h2) \<longrightarrow>
             cookCalls s2 = cookCalls ?s1 @ [Cooked] \<and>
             item (handles s2 ! h2) = length (items s) \<and>
             item (handles s2 ! h2) \<noteq> a \<and>
             cache s2 ?k = Some (length (items s)) \<and>
             refs (items s2 ! length (items s)) = 1"
  proof (intro allI impI)
    fix h2 assume r: "r = Inr (Some h2)"
    with m obtain outcome where o: "cookCalls s2 = cookCalls ?s1 @ [outcome]"
      "outcome = Cooked \<longrightarrow>
          r = Inr (Some (length (handles ?s1))) \<and>
          cache s2 = (cache ?s1)(?k \<mapsto> length (items ?s1)) \<and>
          items s2 = items ?s1 @
            [\<lparr>item_id = ?k, pmesh = nextMesh ?s1, refs = 1, item_bakeScale = bakeScale g\<rparr>] \<and>
          handles s2 = handles ?s1 @
            [\<lparr>handle_value = Some (nextMesh ?s1), item = length (items ?s1),
              released = False\<rparr>]"
      "outcome \<noteq> Cooked \<longrightarrow>
          r = (if outcome = Throws \<and> convex then Inl NativeException else Inr None)"
      by (auto split: if_splits)
    from o(3) r have "outcome = Cooked" by (auto split: if_splits)
    with o r len a(1) show "cookCalls s2 = cookCalls ?s1 @ [Cooked] \<and>
             item (handles s2 ! h2) = length (items s) \<and>
             item (handles s2 ! h2) \<noteq> a \<and>
             cache s2 ?k = Some (length (items s)) \<and>
             refs (items s2 ! length (items s)) = 1"
      by (auto simp: nth_append)
  qed
  have again: "convex \<or> index g \<noteq> None \<longrightarrow>
             (\<exists>outcome. cookCalls s2 = cookCalls ?s1 @ [outcome])"
    using m by auto
  from destroyed_reaches [OF assms(9) c1 d1]
  have dt: "destroyed t a" "items t ! a = items ?s1 ! a" by simp_all
  have ct: "consistent t" using consistent_reaches [OF assms(9) c1] .
  have none: "\<forall>h' < length (handles t). item (handles t ! h') = a \<longrightarrow> released (handles t ! h')"
    using destroyed_no_handle [OF ct dt(1)] by blast
  from d1 miss rel fresh again dt none show ?thesis by blast
qed

theorem destroyed_entry_is_terminal_witness:
  "initial store0 \<and> reaches physxAccepts store0 store1 \<and> 0 < length (handles store1) \<and>
   \<not> released (handles store1 ! 0) \<and> item (handles store1 ! 0) = 0 \<and>
   cache store1 (cacheId tri True) = Some 0 \<and> refs (items store1 ! 0) = 1 \<and>
   geometryToPxMesh physxAccepts world0 tri True (release 0 store1) = (Inr (Some 1), store2) \<and>
   reaches physxAccepts (release 0 store1) store2 \<and>
   destroyed (release 0 store1) 0 \<and>
   cookCalls store2 = cookCalls (release 0 store1) @ [Cooked] \<and>
   item (handles store2 ! 1) = 1 \<and> cache store2 (cacheId tri True) = Some 1 \<and>
   destroyed store2 0"
proof -
  have a: "0 < length (handles store1)" "\<not> released (handles store1 ! 0)"
    "item (handles store1 ! 0) = 0" "cache store1 (cacheId tri True) = Some 0"
    "refs (items store1 ! 0) = 1" "length (items store1) = 1"
    by (simp_all add: store1_def cacheId_tri)
  have b: "geometryToPxMesh physxAccepts world0 tri True (release 0 store1) =
      (Inr (Some 1), store2)"
    by (simp add: release_store1 second_convex)
  have c: "reaches physxAccepts (release 0 store1) store2"
    by (simp add: release_store1 reaches_store2)
  from destroyed_entry_is_terminal
         [OF initial_store0 reaches_store1 a(1) a(2) a(3) a(4) a(5) b c]
       initial_store0 reaches_store1 a b c
  show ?thesis by simp
qed

subsection \<open>The value of a handle\<close>

text \<open>
  Claim C10. In every state of a run of the cache, the \<open>value\<close> of a handle that has not
  been released is the cooked mesh of its item. After \<open>release\<close> the handle is released
  and its \<open>value\<close> is \<open>null\<close>, and it stays so in every later state of the run: a
  released handle never gives out the native mesh.
\<close>

theorem handle_value_until_release:
  assumes "initial s0" and "reaches P s0 s" and "h < length (handles s)"
    and "reaches P (release h s) t"
  shows "(\<not> released (handles s ! h) \<longrightarrow>
            handle_value (handles s ! h) = Some (pmesh (items s ! item (handles s ! h))))
       \<and> released (handles (release h s) ! h)
       \<and> handle_value (handles (release h s) ! h) = None
       \<and> released (handles t ! h)
       \<and> handle_value (handles t ! h) = None"
proof -
  from consistent_reaches [OF assms(2) initial_consistent [OF assms(1)]]
  have c: "consistent s" .
  have c': "consistent (release h s)" using consistent_release [OF c assms(3)] .
  have len: "h < length (handles (release h s))"
    using assms(3) by (simp add: release_def Let_def)
  have rel: "released (handles (release h s) ! h)"
    using assms(3) by (simp add: release_def Let_def)
  from released_reaches [OF assms(4) len rel]
  have t: "h < length (handles t)" "released (handles t ! h)" by simp_all
  have ct: "consistent t" using consistent_reaches [OF assms(4) c'] .
  from consistent_handle [OF c assms(3)] consistent_handle [OF c' len] rel
       consistent_handle [OF ct t(1)] t(2)
  show ?thesis by simp
qed

theorem handle_value_until_release_witness:
  "initial store0 \<and> reaches physxAccepts store0 store1 \<and> 0 < length (handles store1) \<and>
   reaches physxAccepts (release 0 store1) store2 \<and>
   \<not> released (handles store1 ! 0) \<and>
   handle_value (handles store1 ! 0) = Some (pmesh (items store1 ! item (handles store1 ! 0))) \<and>
   handle_value (handles (release 0 store1) ! 0) = None \<and>
   handle_value (handles store2 ! 0) = None"
proof -
  have a: "0 < length (handles store1)" "\<not> released (handles store1 ! 0)"
    by (simp_all add: store1_def)
  have b: "reaches physxAccepts (release 0 store1) store2"
    by (simp add: release_store1 reaches_store2)
  from handle_value_until_release [OF initial_store0 reaches_store1 a(1) b]
       initial_store0 reaches_store1 a b
  show ?thesis by simp
qed

end
